theory Spec2Isabelle
  imports Complex_Main "HOL-Library.Multiset"
begin

section \<open>Data model\<close>

text \<open>
  The raw records come from the RPC client library; only the fields the code reads are
  kept. A JavaScript \<open>undefined\<close> or \<open>null\<close> field is \<open>None\<close>.

  Every number is a JavaScript double. A lamport balance is a whole number of lamports
  (an unsigned 64-bit count on the wire), so a balance is an integer here: the value of
  the double that holds it. A difference of two balances is rounded to the nearest
  double, as the subtraction of the code rounds it; at these magnitudes no difference
  overflows. UI token amounts and SOL amounts are modelled as reals: the code only
  subtracts two of them and tests the sign of the difference, and a difference of two
  finite doubles is zero, positive or negative exactly when the exact difference is.
\<close>

text \<open>
  One parsed or partially decoded instruction. \<open>program\<close> is \<open>ix.program\<close>
  (absent on a partially decoded instruction), \<open>ptype\<close> is \<open>ix.parsed?.type\<close>,
  and \<open>source\<close>, \<open>destination\<close>, \<open>authority\<close> are the fields of
  \<open>ix.parsed.info\<close>, which the code reads only after the type test succeeded. A
  parsed system or token transfer always carries \<open>source\<close> and
  \<open>destination\<close>; one signed by a multisig carries no \<open>authority\<close>.
\<close>

record instruction =
  program :: "string option"
  ptype :: "string option"
  source :: string
  destination :: string
  authority :: "string option"

record inner_instruction =
  index :: nat
  inner_ixs :: "instruction list"

record token_balance =
  accountIndex :: nat
  owner :: "string option"
  mint :: string
  uiAmount :: "real option"

text \<open>A non-null \<open>meta.err\<close> is an object or a variant name, hence truthy.\<close>

datatype transaction_error = TransactionError string

record tx_meta =
  err :: "transaction_error option"
  preBalances :: "int list"
  postBalances :: "int list"
  innerInstructions :: "inner_instruction list option"
  preTokenBalances :: "token_balance list option"
  postTokenBalances :: "token_balance list option"

text \<open>\<open>tx.transaction\<close>, with the two fields of \<open>message\<close> the code reads.\<close>

record tx_body =
  signatures :: "string list"
  accountKeys :: "string list"
  instructions :: "instruction list"

record parsed_tx =
  blockTime :: "int option"
  meta :: "tx_meta option"
  transaction :: "tx_body option"

datatype direction = Sent | Received

text \<open>
  \<open>FormattedTransaction\<close>. \<open>signature\<close> is \<open>signatures[0]\<close>, absent when the
  list is empty; \<open>time\<close> is a \<open>Date\<close>, kept as its milliseconds since the epoch.
\<close>

record formatted_transaction =
  signature :: "string option"
  tx_type :: direction
  token :: string
  amount :: real
  tx_from :: string
  tx_to :: string
  time :: "int option"

record addresses =
  from_addr :: string
  to_addr :: string

section \<open>JavaScript primitives used by the parser\<close>

definition MIN_SOL_CHANGE :: int where
  "MIN_SOL_CHANGE = 5000"

definition LAMPORTS_PER_SOL :: real where
  "LAMPORTS_PER_SOL = 1000000000"

definition USDC_MINT :: string where
  "USDC_MINT = ''4zMMC9srt5Ri5X14GAgXhaHii3GnPAEERYPJgZJDncDU''"

text \<open>\<open>xs.indexOf(x)\<close>: the first position of \<open>x\<close>; \<open>None\<close> is \<open>-1\<close>.\<close>

fun indexOf :: "'a list \<Rightarrow> 'a \<Rightarrow> nat option" where
  "indexOf [] x = None"
| "indexOf (y # ys) x = (if y = x then Some 0 else map_option Suc (indexOf ys x))"

text \<open>\<open>xs[i]\<close>: \<open>undefined\<close> out of range.\<close>

definition elemAt :: "'a list \<Rightarrow> nat \<Rightarrow> 'a option" where
  "elemAt xs i = (if i < length xs then Some (xs ! i) else None)"

text \<open>The number of binary digits of \<open>n\<close>.\<close>

fun bitLength :: "nat \<Rightarrow> nat" where
  "bitLength n = (if n = 0 then 0 else Suc (bitLength (n div 2)))"

declare bitLength.simps [simp del]

text \<open>
  The double nearest to the integer \<open>x\<close>: its 53 leading binary digits, rounded to
  nearest with ties to the even significand. Integers below \<open>2^53\<close> in size are
  doubles themselves.
\<close>

definition toDouble :: "int \<Rightarrow> int" where
  "toDouble x =
     (let a = \<bar>x\<bar>;
          e = bitLength (nat a) - 53;
          q = a div 2 ^ e;
          r = a mod 2 ^ e;
          up = (2 * r > 2 ^ e \<or> (2 * r = 2 ^ e \<and> odd q))
      in sgn x * (if up then q + 1 else q) * 2 ^ e)"

text \<open>
  \<open>post[i] - pre[i]\<close>: the difference of the two doubles, rounded; \<open>NaN\<close> (here
  \<open>None\<close>) when an operand is missing.
\<close>

definition balanceDiff :: "int list \<Rightarrow> int list \<Rightarrow> nat \<Rightarrow> int option" where
  "balanceDiff post pre i =
     (case (elemAt post i, elemAt pre i) of
        (Some a, Some b) \<Rightarrow> Some (toDouble (a - b))
      | _ \<Rightarrow> None)"

text \<open>\<open>a || b\<close> on strings: the empty string is falsy.\<close>

definition or_str :: "string \<Rightarrow> string \<Rightarrow> string" where
  "or_str a b = (if a = [] then b else a)"

text \<open>\<open>a || b\<close> where \<open>a\<close> may be \<open>null\<close> or \<open>undefined\<close>.\<close>

definition or_opt :: "string option \<Rightarrow> string \<Rightarrow> string" where
  "or_opt a b = (case a of None \<Rightarrow> b | Some s \<Rightarrow> or_str s b)"

text \<open>\<open>x || 0\<close> on a nullable number.\<close>

definition or_zero :: "real option \<Rightarrow> real" where
  "or_zero x = (case x of None \<Rightarrow> 0 | Some r \<Rightarrow> r)"

text \<open>\<open>x ?? 0\<close> on an array read.\<close>

definition nullish_zero :: "int option \<Rightarrow> int" where
  "nullish_zero x = (case x of None \<Rightarrow> 0 | Some n \<Rightarrow> n)"

section \<open>Counterparty resolution\<close>

text \<open>Top-level instructions followed by every inner instruction group, in order.\<close>

definition allInstructions :: "tx_meta \<Rightarrow> tx_body \<Rightarrow> instruction list" where
  "allInstructions m t =
     (case innerInstructions m of
        None \<Rightarrow> instructions t
      | Some groups \<Rightarrow> fold (\<lambda>inner acc. acc @ inner_ixs inner) groups (instructions t))"

definition isSolTransfer :: "string \<Rightarrow> instruction \<Rightarrow> bool" where
  "isSolTransfer myAddress ix =
     (if program ix = Some ''system'' \<and> ptype ix = Some ''transfer''
      then source ix = myAddress \<or> destination ix = myAddress
      else False)"

text \<open>
  One round of the scan for the receiver; the state is \<open>(maxChange, counterparty)\<close>.
\<close>

definition sentStep ::
  "string list \<Rightarrow> int list \<Rightarrow> int list \<Rightarrow> nat \<Rightarrow> nat \<Rightarrow> int \<times> string \<Rightarrow> int \<times> string" where
  "sentStep keys pre post myIndex i st =
     (if i = myIndex then st
      else case balanceDiff post pre i of
             None \<Rightarrow> st
           | Some diff \<Rightarrow> if diff > fst st then (diff, keys ! i) else st)"

text \<open>One round of the scan for the sender.\<close>

definition receivedStep ::
  "string list \<Rightarrow> int list \<Rightarrow> int list \<Rightarrow> nat \<Rightarrow> nat \<Rightarrow> int \<times> string \<Rightarrow> int \<times> string" where
  "receivedStep keys pre post myIndex i st =
     (if i = myIndex then st
      else case balanceDiff post pre i of
             None \<Rightarrow> st
           | Some diff \<Rightarrow> if diff < 0 \<and> \<bar>diff\<bar> > fst st then (\<bar>diff\<bar>, keys ! i) else st)"

text \<open>
  The balance-change fallback of \<open>extractSOLAddresses\<close> (its step 3). A missing balance
  makes \<open>myDiff\<close> \<open>NaN\<close>, for which \<open>myDiff < 0\<close> is false.
\<close>

definition solFallback :: "tx_meta \<Rightarrow> tx_body \<Rightarrow> string \<Rightarrow> addresses" where
  "solFallback m t myAddress =
     (let keys = accountKeys t; pre = preBalances m; post = postBalances m
      in case indexOf keys myAddress of
           None \<Rightarrow> \<lparr>from_addr = ''external'', to_addr = ''external''\<rparr>
         | Some myIndex \<Rightarrow>
             (let myDiff = balanceDiff post pre myIndex;
                  start = (MIN_SOL_CHANGE, ''external'')
              in if (case myDiff of None \<Rightarrow> False | Some d \<Rightarrow> d < 0)
                 then \<lparr>from_addr = myAddress,
                       to_addr = snd (fold (sentStep keys pre post myIndex)
                                        [0..<length keys] start)\<rparr>
                 else \<lparr>from_addr = snd (fold (receivedStep keys pre post myIndex)
                                          [0..<length keys] start),
                       to_addr = myAddress\<rparr>))"

definition extractSOLAddresses :: "tx_meta \<Rightarrow> tx_body \<Rightarrow> string \<Rightarrow> addresses" where
  "extractSOLAddresses m t myAddress =
     (case find (isSolTransfer myAddress) (allInstructions m t) of
        Some transferIx \<Rightarrow>
          \<lparr>from_addr = source transferIx, to_addr = destination transferIx\<rparr>
      | None \<Rightarrow> solFallback m t myAddress)"

definition isTokenTransfer :: "instruction \<Rightarrow> bool" where
  "isTokenTransfer ix =
     ((ptype ix = Some ''transfer'' \<or> ptype ix = Some ''transferChecked'')
      \<and> program ix = Some ''spl-token'')"

text \<open>
  The wallet owning a token account: the owner of the first pre-balance entry whose
  account index names the account, when that owner is truthy; else that of the first such
  post-balance entry; else \<open>null\<close>.
\<close>

definition resolveOwner ::
  "string list \<Rightarrow> token_balance list \<Rightarrow> token_balance list \<Rightarrow> string \<Rightarrow> string option" where
  "resolveOwner keys preTokens postTokens tokenAccountAddr =
     (let hit = (\<lambda>b. elemAt keys (accountIndex b) = Some tokenAccountAddr);
          truthy = (\<lambda>b. case b of None \<Rightarrow> None
                        | Some e \<Rightarrow> (case owner e of None \<Rightarrow> None
                                     | Some w \<Rightarrow> if w = [] then None else Some w))
      in case truthy (find hit preTokens) of
           Some w \<Rightarrow> Some w
         | None \<Rightarrow> truthy (find hit postTokens))"

text \<open>The source's \<open>tokenAccountIndex\<close> argument is never read and is left out.\<close>

definition extractTokenAddresses ::
  "tx_meta \<Rightarrow> tx_body \<Rightarrow> string \<Rightarrow> token_balance list \<Rightarrow> token_balance list \<Rightarrow> addresses" where
  "extractTokenAddresses m t accountAddress preTokens postTokens =
     (case find isTokenTransfer (allInstructions m t) of
        None \<Rightarrow> \<lparr>from_addr = ''external'', to_addr = ''external''\<rparr>
      | Some transferIx \<Rightarrow>
          (let keys = accountKeys t;
               sourceOwner = resolveOwner keys preTokens postTokens
                               (source transferIx);
               destOwner = resolveOwner keys preTokens postTokens
                             (destination transferIx);
               isSender = (sourceOwner = Some accountAddress
                           \<or> authority transferIx = Some accountAddress)
           in if isSender
              then \<lparr>from_addr = accountAddress,
                    to_addr = or_opt destOwner (or_str (destination transferIx) ''external'')\<rparr>
              else \<lparr>from_addr = or_opt sourceOwner (or_str (source transferIx) ''external''),
                    to_addr = accountAddress\<rparr>))"

section \<open>The formatter\<close>

text \<open>
  The tracked account's lamport change, as \<open>formatTransactions\<close> computes it. The
  code tests only whether its size exceeds 5000 and whether it is positive, and divides
  it for the amount; rounding the difference changes neither test (5000 is a double and
  rounding keeps order and sign), so the exact difference stands for it.
\<close>

definition nativeDiff :: "tx_meta \<Rightarrow> nat \<Rightarrow> int" where
  "nativeDiff m myIndex =
     nullish_zero (elemAt (postBalances m) myIndex) - nullish_zero (elemAt (preBalances m) myIndex)"

text \<open>
  The SOL part of one loop round. \<open>None\<close> is the \<open>continue\<close> taken when the resolved
  addresses coincide; otherwise the events pushed (none or one).
\<close>

definition solTransfers ::
  "string \<Rightarrow> tx_meta \<Rightarrow> tx_body \<Rightarrow> string option \<Rightarrow> int option
     \<Rightarrow> formatted_transaction list option" where
  "solTransfers accountAddress m t sig tm =
     (case indexOf (accountKeys t) accountAddress of
        None \<Rightarrow> Some []
      | Some myIndex \<Rightarrow>
          (let diff = nativeDiff m myIndex
           in if \<bar>diff\<bar> > MIN_SOL_CHANGE
              then (let diffSOL = real_of_int diff / LAMPORTS_PER_SOL;
                        addrs = extractSOLAddresses m t accountAddress
                    in if from_addr addrs = to_addr addrs then None
                       else Some [\<lparr>signature = sig,
                              tx_type = (if diffSOL > 0 then Received else Sent),
                              token = ''SOL'',
                              amount = \<bar>diffSOL\<bar>,
                              tx_from = or_str (from_addr addrs)
                                          (if diffSOL > 0 then ''external'' else accountAddress),
                              tx_to = or_str (to_addr addrs)
                                        (if diffSOL > 0 then accountAddress else ''external''),
                              time = tm\<rparr>])
              else Some []))"

text \<open>
  One round of the token loop for the entry \<open>post\<close>: \<open>None\<close> when the round is
  skipped, otherwise the event pushed.
\<close>

definition tokenTransfer ::
  "string \<Rightarrow> tx_meta \<Rightarrow> tx_body \<Rightarrow> string option \<Rightarrow> int option
     \<Rightarrow> token_balance list \<Rightarrow> token_balance list \<Rightarrow> token_balance
     \<Rightarrow> formatted_transaction option" where
  "tokenTransfer accountAddress m t sig tm preTokens postTokens post =
     (if owner post \<noteq> Some accountAddress then None
      else let pre = find (\<lambda>p. accountIndex p = accountIndex post) preTokens;
               diff = or_zero (uiAmount post)
                      - (case pre of None \<Rightarrow> 0 | Some p \<Rightarrow> or_zero (uiAmount p))
           in if \<bar>diff\<bar> = 0 then None
              else (let addrs = extractTokenAddresses m t accountAddress preTokens postTokens;
                        tokenSymbol = (if mint post = USDC_MINT then ''USDC'' else mint post)
                    in Some \<lparr>signature = sig,
                         tx_type = (if diff > 0 then Received else Sent),
                         token = tokenSymbol,
                         amount = \<bar>diff\<bar>,
                         tx_from = or_str (from_addr addrs)
                                     (if diff > 0 then ''external'' else accountAddress),
                         tx_to = or_str (to_addr addrs)
                                   (if diff > 0 then accountAddress else ''external''),
                         time = tm\<rparr>))"

text \<open>The token loop over the remaining post-balance entries, pushing onto \<open>result\<close>.\<close>

fun tokenLoop ::
  "(token_balance \<Rightarrow> formatted_transaction option) \<Rightarrow> token_balance list
     \<Rightarrow> formatted_transaction list \<Rightarrow> formatted_transaction list" where
  "tokenLoop body [] result = result"
| "tokenLoop body (post # rest) result =
     (case body post of
        None \<Rightarrow> tokenLoop body rest result
      | Some e \<Rightarrow> tokenLoop body rest (result @ [e]))"

definition txSignature :: "tx_body \<Rightarrow> string option" where
  "txSignature t = elemAt (signatures t) 0"

text \<open>\<open>tx.blockTime ? new Date(tx.blockTime * 1000) : null\<close>; zero is falsy.\<close>

definition txTime :: "parsed_tx \<Rightarrow> int option" where
  "txTime tx = (case blockTime tx of
                  None \<Rightarrow> None
                | Some b \<Rightarrow> if b = 0 then None else Some (b * 1000))"

definition nullish_list :: "'a list option \<Rightarrow> 'a list" where
  "nullish_list x = (case x of None \<Rightarrow> [] | Some xs \<Rightarrow> xs)"

text \<open>The token part of one loop round.\<close>

definition tokenTransfers ::
  "string \<Rightarrow> parsed_tx \<Rightarrow> tx_meta \<Rightarrow> tx_body
     \<Rightarrow> formatted_transaction list \<Rightarrow> formatted_transaction list" where
  "tokenTransfers accountAddress tx m t result =
     (let preTokens = nullish_list (preTokenBalances m);
          postTokens = nullish_list (postTokenBalances m)
      in tokenLoop (tokenTransfer accountAddress m t (txSignature t) (txTime tx)
                      preTokens postTokens)
           postTokens result)"

text \<open>One round of the outer loop: the body applied to the events collected so far.\<close>

definition formatOne ::
  "string \<Rightarrow> parsed_tx \<Rightarrow> formatted_transaction list \<Rightarrow> formatted_transaction list" where
  "formatOne accountAddress tx result =
     (case meta tx of
        None \<Rightarrow> result
      | Some m \<Rightarrow>
          (case transaction tx of
             None \<Rightarrow> result
           | Some t \<Rightarrow>
               if err m \<noteq> None then result
               else (case solTransfers accountAddress m t (txSignature t) (txTime tx) of
                       None \<Rightarrow> result
                     | Some evs \<Rightarrow> tokenTransfers accountAddress tx m t (result @ evs))))"

fun formatLoop ::
  "string \<Rightarrow> parsed_tx list \<Rightarrow> formatted_transaction list \<Rightarrow> formatted_transaction list" where
  "formatLoop accountAddress [] result = result"
| "formatLoop accountAddress (tx # txs) result =
     formatLoop accountAddress txs (formatOne accountAddress tx result)"

definition formatTransactions :: "string \<Rightarrow> parsed_tx list \<Rightarrow> formatted_transaction list" where
  "formatTransactions accountAddress transactions = formatLoop accountAddress transactions []"

text \<open>
  Views of one round, used to state the properties: the events the SOL part pushes, the
  events the token loop pushes, and whether the SOL part left the round by \<open>continue\<close>.
  All three are empty (or false) for a transaction the loop skips at its head.
\<close>

definition nativeEvents :: "string \<Rightarrow> parsed_tx \<Rightarrow> formatted_transaction list" where
  "nativeEvents accountAddress tx =
     (case meta tx of
        None \<Rightarrow> []
      | Some m \<Rightarrow>
          (case transaction tx of
             None \<Rightarrow> []
           | Some t \<Rightarrow>
               if err m \<noteq> None then []
               else (case solTransfers accountAddress m t (txSignature t) (txTime tx) of
                       None \<Rightarrow> []
                     | Some evs \<Rightarrow> evs)))"

definition tokenEvents :: "string \<Rightarrow> parsed_tx \<Rightarrow> formatted_transaction list" where
  "tokenEvents accountAddress tx =
     (case meta tx of
        None \<Rightarrow> []
      | Some m \<Rightarrow>
          (case transaction tx of
             None \<Rightarrow> []
           | Some t \<Rightarrow>
               if err m \<noteq> None then []
               else tokenTransfers accountAddress tx m t []))"

definition nativeLegDiscarded :: "string \<Rightarrow> parsed_tx \<Rightarrow> bool" where
  "nativeLegDiscarded accountAddress tx =
     (case meta tx of
        None \<Rightarrow> False
      | Some m \<Rightarrow>
          (case transaction tx of
             None \<Rightarrow> False
           | Some t \<Rightarrow>
               if err m \<noteq> None then False
               else (case solTransfers accountAddress m t (txSignature t) (txTime tx) of
                       None \<Rightarrow> True
                     | Some evs \<Rightarrow> False)))"

section \<open>The largest change, first encountered\<close>

text \<open>
  The two scans differ only in what they measure at an account: the receiver scan its
  lamport change, the sender scan the size of its lamport loss, both as the code
  computes them. \<open>scanStep\<close> is their
  common shape.
\<close>

definition gain :: "int list \<Rightarrow> int list \<Rightarrow> nat \<Rightarrow> int option" where
  "gain post pre i = balanceDiff post pre i"

definition loss :: "int list \<Rightarrow> int list \<Rightarrow> nat \<Rightarrow> int option" where
  "loss post pre i =
     (case balanceDiff post pre i of
        None \<Rightarrow> None
      | Some d \<Rightarrow> if d < 0 then Some \<bar>d\<bar> else None)"

definition scanStep ::
  "(nat \<Rightarrow> int option) \<Rightarrow> string list \<Rightarrow> nat \<Rightarrow> nat \<Rightarrow> int \<times> string \<Rightarrow> int \<times> string" where
  "scanStep change keys myIndex i st =
     (if i = myIndex then st
      else case change i of
             None \<Rightarrow> st
           | Some d \<Rightarrow> if d > fst st then (d, keys ! i) else st)"

text \<open>
  What the specification asks of the chosen account \<open>i\<close> among the first \<open>n\<close>
  accounts other than the tracked one: its change exceeds the dust threshold, no other
  account has a larger one, and every earlier account has a strictly smaller one.
\<close>

definition largestFirst :: "(nat \<Rightarrow> int option) \<Rightarrow> nat \<Rightarrow> nat \<Rightarrow> nat \<Rightarrow> bool" where
  "largestFirst change n myIndex i \<longleftrightarrow>
     i < n \<and> i \<noteq> myIndex \<and>
     (case change i of
        None \<Rightarrow> False
      | Some d \<Rightarrow>
          d > MIN_SOL_CHANGE \<and>
          (\<forall>j<n. j \<noteq> myIndex \<longrightarrow>
             (case change j of None \<Rightarrow> True | Some e \<Rightarrow> e \<le> d \<and> (j < i \<longrightarrow> e < d))))"

text \<open>No account other than the tracked one changes by more than the dust threshold.\<close>

definition noneExceeds :: "(nat \<Rightarrow> int option) \<Rightarrow> nat \<Rightarrow> nat \<Rightarrow> bool" where
  "noneExceeds change n myIndex \<longleftrightarrow>
     (\<forall>j<n. j \<noteq> myIndex \<longrightarrow>
        (case change j of None \<Rightarrow> True | Some e \<Rightarrow> e \<le> MIN_SOL_CHANGE))"

text \<open>\<open>myDiff < 0\<close>, false for a \<open>NaN\<close>.\<close>

definition trackedNegative :: "tx_meta \<Rightarrow> nat \<Rightarrow> bool" where
  "trackedNegative m myIndex =
     (case balanceDiff (postBalances m) (preBalances m) myIndex of
        None \<Rightarrow> False
      | Some d \<Rightarrow> d < 0)"

section \<open>Properties of emitted events\<close>

text \<open>Exactly one side of the event is the tracked address.\<close>

definition exactlyOneTracked :: "string \<Rightarrow> formatted_transaction \<Rightarrow> bool" where
  "exactlyOneTracked accountAddress e \<longleftrightarrow>
     (tx_from e = accountAddress) \<noteq> (tx_to e = accountAddress)"

text \<open>
  Addresses are base58 renderings of public keys, hence never empty: the account keys,
  and the two ends of every parsed system transfer.
\<close>

definition nonEmptyAddresses :: "tx_meta \<Rightarrow> tx_body \<Rightarrow> bool" where
  "nonEmptyAddresses m t \<longleftrightarrow>
     (\<forall>k \<in> set (accountKeys t). k \<noteq> []) \<and>
     (\<forall>ix \<in> set (allInstructions m t).
        program ix = Some ''system'' \<and> ptype ix = Some ''transfer''
        \<longrightarrow> source ix \<noteq> [] \<and> destination ix \<noteq> [])"

definition wellFormed :: "parsed_tx \<Rightarrow> bool" where
  "wellFormed tx =
     (case meta tx of
        None \<Rightarrow> True
      | Some m \<Rightarrow> (case transaction tx of None \<Rightarrow> True | Some t \<Rightarrow> nonEmptyAddresses m t))"

section \<open>Pagination state of the history screen\<close>

text \<open>
  The RPC connection, as far as the history service uses it.
  \<open>getSignaturesForAddress\<close> takes the page size and the \<open>before\<close> cursor and
  answers with signatures, newest first; \<open>getParsedTransaction\<close> answers with a
  transaction or \<open>null\<close>. An outer \<open>None\<close> is a rejected call (a rejected wallet
  address included).
\<close>

record connection =
  getSignaturesForAddress :: "nat \<Rightarrow> string option \<Rightarrow> string list option"
  getParsedTransaction :: "string \<Rightarrow> parsed_tx option option"

text \<open>
  \<open>SolanaService.getTransactionsHistory\<close>: \<open>None\<close> is the \<open>null\<close> of its
  \<open>catch\<close>. \<open>Promise.all\<close> rejects as soon as one lookup does and keeps the
  order of the signatures otherwise.
\<close>

definition getTransactionsHistory ::
  "connection \<Rightarrow> string \<Rightarrow> bool \<Rightarrow> string option \<Rightarrow> formatted_transaction list option" where
  "getTransactionsHistory conn walletAddress isLastTransaction before =
     (case getSignaturesForAddress conn (if isLastTransaction then 1 else 20) before of
        None \<Rightarrow> None
      | Some sigs \<Rightarrow>
          if length sigs = 0 then Some []
          else (case those (map (getParsedTransaction conn) sigs) of
                  None \<Rightarrow> None
                | Some found \<Rightarrow>
                    Some (formatTransactions walletAddress (List.map_filter (\<lambda>tx. tx) found))))"

text \<open>
  The screen's state hooks as one record; each handler takes the state and returns the
  state after its updates. The handlers call the service with the screen's connection
  and wallet address and \<open>isLastTransaction = false\<close>; what they depend on is the
  resulting map from the cursor to a page of events or \<open>null\<close>, which is their
  parameter here.
\<close>

record screen_state =
  transactions :: "formatted_transaction list"
  loading :: bool
  refreshing :: bool
  loadingMore :: bool
  error :: "string option"
  lastSignature :: "string option"
  hasMore :: bool

type_synonym history = "string option \<Rightarrow> formatted_transaction list option"

definition screenHistory :: "connection \<Rightarrow> string \<Rightarrow> history" where
  "screenHistory conn walletAddress = getTransactionsHistory conn walletAddress False"

definition fetchTransactions :: "history \<Rightarrow> bool \<Rightarrow> screen_state \<Rightarrow> screen_state" where
  "fetchTransactions history reset s =
     (let s1 = (if reset then s\<lparr>loading := True, lastSignature := None, hasMore := True\<rparr>
                else s);
          s2 = s1\<lparr>error := None\<rparr>
      in case history (if reset then None else lastSignature s) of
           None \<Rightarrow> s2\<lparr>error := Some ''Error loading transactions'', loading := False\<rparr>
         | Some page \<Rightarrow>
             (let s3 = (if reset then s2\<lparr>transactions := page\<rparr>
                        else s2\<lparr>transactions := transactions s2 @ page\<rparr>);
                  s4 = (if length page > 0
                        then s3\<lparr>lastSignature := signature (last page)\<rparr> else s3);
                  s5 = (if length page = 0 then s4\<lparr>hasMore := False\<rparr> else s4)
              in s5\<lparr>loading := False\<rparr>))"

definition loadMore :: "history \<Rightarrow> screen_state \<Rightarrow> screen_state" where
  "loadMore history s =
     (if loadingMore s \<or> \<not> hasMore s then s
      else (fetchTransactions history False (s\<lparr>loadingMore := True\<rparr>))
             \<lparr>loadingMore := False\<rparr>)"

definition onRefresh :: "history \<Rightarrow> screen_state \<Rightarrow> screen_state" where
  "onRefresh history s =
     (fetchTransactions history True (s\<lparr>refreshing := True\<rparr>))
       \<lparr>refreshing := False\<rparr>"

section \<open>Grouping by date\<close>

text \<open>
  A \<open>Date\<close> is its milliseconds since the epoch. What the platform reports for it in
  the local time zone (\<open>getFullYear\<close>, \<open>getMonth\<close>, \<open>getDate\<close>, and
  \<open>toLocaleDateString\<close> with the options the code passes) is a parameter
  \<open>cal\<close>, as are the clock reading \<open>today\<close>, the date \<open>yesterday\<close> that
  \<open>setDate\<close> produces from it, and the reading \<open>now\<close> taken for an event without a
  time.
\<close>

record date_view =
  getFullYear :: int
  getMonth :: int
  getDate :: int
  toLocaleDateString :: string

record transaction_section =
  title :: string
  data :: "formatted_transaction list"

definition isSameDay :: "date_view \<Rightarrow> date_view \<Rightarrow> bool" where
  "isSameDay d1 d2 \<longleftrightarrow>
     getFullYear d1 = getFullYear d2 \<and> getMonth d1 = getMonth d2 \<and> getDate d1 = getDate d2"

definition eventDate :: "int \<Rightarrow> formatted_transaction \<Rightarrow> int" where
  "eventDate now tr = (case time tr of None \<Rightarrow> now | Some d \<Rightarrow> d)"

definition sectionTitle ::
  "(int \<Rightarrow> date_view) \<Rightarrow> int \<Rightarrow> int \<Rightarrow> int \<Rightarrow> formatted_transaction \<Rightarrow> string" where
  "sectionTitle cal today yesterday now tr =
     (let date = eventDate now tr
      in if isSameDay (cal date) (cal today) then ''Today''
         else if isSameDay (cal date) (cal yesterday) then ''Yesterday''
         else toLocaleDateString (cal date))"

text \<open>
  The accumulator is a plain object: its own properties in creation order, and behind
  them the properties every object inherits. Reading a key gives the own array, an
  inherited value (truthy, and without \<open>push\<close>), or \<open>undefined\<close>.
\<close>

type_synonym grouped = "(string \<times> formatted_transaction list) list"

datatype property = Undefined | Own "formatted_transaction list" | Inherited

definition objectPrototypeKeys :: "string list" where
  "objectPrototypeKeys =
     [''constructor'', ''hasOwnProperty'', ''isPrototypeOf'', ''propertyIsEnumerable'',
      ''toLocaleString'', ''toString'', ''valueOf'', ''__proto__'',
      ''__defineGetter__'', ''__defineSetter__'', ''__lookupGetter__'', ''__lookupSetter__'']"

definition getProp :: "grouped \<Rightarrow> string \<Rightarrow> property" where
  "getProp acc k =
     (case map_of acc k of
        Some v \<Rightarrow> Own v
      | None \<Rightarrow> if k \<in> set objectPrototypeKeys then Inherited else Undefined)"

definition setProp :: "grouped \<Rightarrow> string \<Rightarrow> formatted_transaction list \<Rightarrow> grouped" where
  "setProp acc k v =
     (if k \<in> fst ` set acc then map (\<lambda>(k', v'). if k' = k then (k', v) else (k', v')) acc
      else acc @ [(k, v)])"

text \<open>
  The reducer's body; \<open>None\<close> is the \<open>TypeError\<close> of calling \<open>push\<close> on something
  that is not an array.
\<close>

definition groupStep ::
  "(formatted_transaction \<Rightarrow> string) \<Rightarrow> grouped \<Rightarrow> formatted_transaction \<Rightarrow> grouped option" where
  "groupStep titleOf acc tr =
     (let t = titleOf tr;
          acc1 = (if getProp acc t = Undefined then setProp acc t [] else acc)
      in case getProp acc1 t of
           Own evs \<Rightarrow> Some (setProp acc1 t (evs @ [tr]))
         | _ \<Rightarrow> None)"

fun reduceGroups ::
  "(formatted_transaction \<Rightarrow> string) \<Rightarrow> formatted_transaction list \<Rightarrow> grouped
     \<Rightarrow> grouped option" where
  "reduceGroups titleOf [] acc = Some acc"
| "reduceGroups titleOf (tr # rest) acc =
     (case groupStep titleOf acc tr of
        None \<Rightarrow> None
      | Some acc' \<Rightarrow> reduceGroups titleOf rest acc')"

text \<open>
  \<open>Object.keys\<close>: keys that are array indices (canonical decimal numerals below
  \<open>2^32 - 1\<close>) come first, in ascending numeric order; the other string keys follow in
  creation order.
\<close>

definition indexValue :: "string \<Rightarrow> nat" where
  "indexValue k = foldl (\<lambda>n c. 10 * n + (of_char c - 48)) 0 k"

definition isArrayIndex :: "string \<Rightarrow> bool" where
  "isArrayIndex k \<longleftrightarrow>
     k \<noteq> [] \<and> (\<forall>c \<in> set k. c \<in> set ''0123456789'')
     \<and> (length k = 1 \<or> hd k \<noteq> CHR ''0'') \<and> indexValue k < 4294967295"

definition objectKeys :: "grouped \<Rightarrow> string list" where
  "objectKeys acc =
     (let ks = map fst acc
      in sort_key indexValue (filter isArrayIndex ks) @ filter (\<lambda>k. \<not> isArrayIndex k) ks)"

definition groupTransactionsByDate ::
  "(int \<Rightarrow> date_view) \<Rightarrow> int \<Rightarrow> int \<Rightarrow> int \<Rightarrow> formatted_transaction list
     \<Rightarrow> transaction_section list option" where
  "groupTransactionsByDate cal today yesterday now txs =
     (if length txs = 0 then Some []
      else case reduceGroups (sectionTitle cal today yesterday now) txs [] of
             None \<Rightarrow> None
           | Some acc \<Rightarrow>
               Some (map (\<lambda>k. \<lparr>title = k,
                                data = (case map_of acc k of None \<Rightarrow> [] | Some v \<Rightarrow> v)\<rparr>)
                       (objectKeys acc)))"

text \<open>
  A key that is neither an array index nor an inherited property name. \<open>Today\<close> and
  \<open>Yesterday\<close> are such keys, and so is a long-form date like \<open>March 1, 2024\<close>.
\<close>

definition ordinaryKey :: "string \<Rightarrow> bool" where
  "ordinaryKey k \<longleftrightarrow> \<not> isArrayIndex k \<and> k \<notin> set objectPrototypeKeys"

text \<open>
  The specification's order of section titles: each label once, at the position where it
  is first met.
\<close>

fun firstSeen :: "'a list \<Rightarrow> 'a list" where
  "firstSeen [] = []"
| "firstSeen (x # xs) = x # filter (\<lambda>y. y \<noteq> x) (firstSeen xs)"

text \<open>
  The reducer's invariant after the events \<open>seen\<close>: the keys are the labels in
  first-seen order, and each key holds the events with that label, in input order.
\<close>

definition groupInv ::
  "(formatted_transaction \<Rightarrow> string) \<Rightarrow> formatted_transaction list \<Rightarrow> grouped \<Rightarrow> bool" where
  "groupInv titleOf seen acc \<longleftrightarrow>
     map fst acc = firstSeen (map titleOf seen)
     \<and> (\<forall>(k, v) \<in> set acc. v = filter (\<lambda>tr. titleOf tr = k) seen)"

section \<open>Example transactions\<close>

definition exTransfer :: "string \<Rightarrow> string \<Rightarrow> string \<Rightarrow> string option \<Rightarrow> instruction" where
  "exTransfer prog src dst auth =
     \<lparr>program = Some prog, ptype = Some ''transfer'', source = src, destination = dst,
      authority = auth\<rparr>"

definition exToken :: "nat \<Rightarrow> string \<Rightarrow> string \<Rightarrow> real \<Rightarrow> token_balance" where
  "exToken i w mt a = \<lparr>accountIndex = i, owner = Some w, mint = mt, uiAmount = Some a\<rparr>"

text \<open>
  \<open>Me\<close> sends 1.005 SOL to \<open>Bob\<close> and pays the 5000 lamport fee; its token
  account is listed with an unchanged balance.
\<close>

definition exSendMeta :: tx_meta where
  "exSendMeta =
     \<lparr>err = None,
      preBalances = [3000000000, 500, 2039280],
      postBalances = [1994995000, 1005000500, 2039280],
      innerInstructions = Some [],
      preTokenBalances = Some [exToken 2 ''Me'' USDC_MINT 7],
      postTokenBalances = Some [exToken 2 ''Me'' USDC_MINT 7]\<rparr>"

definition exSendBody :: tx_body where
  "exSendBody =
     \<lparr>signatures = [''sigSend''], accountKeys = [''Me'', ''Bob'', ''MeAta''],
      instructions = [exTransfer ''system'' ''Me'' ''Bob'' None]\<rparr>"

definition exSend :: parsed_tx where
  "exSend =
     \<lparr>blockTime = Some 1709251200, meta = Some exSendMeta, transaction = Some exSendBody\<rparr>"

definition exSendEvent :: formatted_transaction where
  "exSendEvent =
     \<lparr>signature = Some ''sigSend'', tx_type = Sent, token = ''SOL'', amount = 1.005005,
      tx_from = ''Me'', tx_to = ''Bob'', time = Some 1709251200000\<rparr>"

text \<open>The same transaction, failed on chain.\<close>

definition exFailed :: parsed_tx where
  "exFailed =
     exSend\<lparr>meta := Some (exSendMeta\<lparr>err := Some (TransactionError ''InstructionError'')\<rparr>)\<rparr>"

text \<open>
  No parsed transfer: \<open>Me\<close> loses 8 million lamports, \<open>Bob\<close> and \<open>Caro\<close> both
  gain 4 million, \<open>Fee\<close> gains less.
\<close>

definition exFallbackMeta :: tx_meta where
  "exFallbackMeta =
     \<lparr>err = None,
      preBalances = [9000000, 100, 100, 100],
      postBalances = [1000000, 4000100, 7000, 4000100],
      innerInstructions = None, preTokenBalances = None, postTokenBalances = None\<rparr>"

definition exFallbackBody :: tx_body where
  "exFallbackBody =
     \<lparr>signatures = [''sigFallback''], accountKeys = [''Me'', ''Bob'', ''Fee'', ''Caro''],
      instructions = []\<rparr>"

text \<open>
  \<open>Me\<close> pays only the fee and receives 5 USDC from \<open>Caro\<close>.
\<close>

definition exDustMeta :: tx_meta where
  "exDustMeta =
     \<lparr>err = None,
      preBalances = [10000000, 2039280, 2039280, 1],
      postBalances = [9995000, 2039280, 2039280, 1],
      innerInstructions = None,
      preTokenBalances = Some [exToken 1 ''Caro'' USDC_MINT 50, exToken 2 ''Me'' USDC_MINT 0],
      postTokenBalances = Some [exToken 1 ''Caro'' USDC_MINT 45, exToken 2 ''Me'' USDC_MINT 5]\<rparr>"

definition exDustBody :: tx_body where
  "exDustBody =
     \<lparr>signatures = [''sigDust''], accountKeys = [''Me'', ''CaroAta'', ''MeAta'', ''Caro''],
      instructions = [exTransfer ''spl-token'' ''CaroAta'' ''MeAta'' (Some ''Caro'')]\<rparr>"

definition exDust :: parsed_tx where
  "exDust =
     \<lparr>blockTime = Some 1709164800, meta = Some exDustMeta, transaction = Some exDustBody\<rparr>"

definition exDustEvent :: formatted_transaction where
  "exDustEvent =
     \<lparr>signature = Some ''sigDust'', tx_type = Received, token = ''USDC'', amount = 5,
      tx_from = ''Caro'', tx_to = ''Me'', time = Some 1709164800000\<rparr>"

text \<open>
  Ten tokens are minted into the token account of \<open>Me\<close>, which pays the fee: a
  token balance change with no token transfer instruction.
\<close>

definition exMint :: parsed_tx where
  "exMint =
     \<lparr>blockTime = Some 1709078400,
      meta = Some
        \<lparr>err = None, preBalances = [50000000, 2039280, 1461600],
         postBalances = [49995000, 2039280, 1461600],
         innerInstructions = None, preTokenBalances = Some [],
         postTokenBalances = Some [exToken 1 ''Me'' ''Mint'' 10]\<rparr>,
      transaction = Some
        \<lparr>signatures = [''sigMint''], accountKeys = [''Me'', ''MeAta'', ''Mint''],
         instructions =
           [\<lparr>program = Some ''spl-token'', ptype = Some ''mintTo'', source = [],
             destination = [], authority = None\<rparr>]\<rparr>\<rparr>"

definition exMintEvent :: formatted_transaction where
  "exMintEvent =
     \<lparr>signature = Some ''sigMint'', tx_type = Received, token = ''Mint'', amount = 10,
      tx_from = ''external'', tx_to = ''external'', time = Some 1709078400000\<rparr>"

text \<open>\<open>Me\<close> moves 6 tokens between two token accounts of its own.\<close>

definition exSelfTokenMeta :: tx_meta where
  "exSelfTokenMeta =
     \<lparr>err = None, preBalances = [10000000, 2039280, 2039280],
      postBalances = [9995000, 2039280, 2039280],
      innerInstructions = None,
      preTokenBalances = Some [exToken 1 ''Me'' ''Mint'' 10, exToken 2 ''Me'' ''Mint'' 0],
      postTokenBalances = Some [exToken 1 ''Me'' ''Mint'' 4, exToken 2 ''Me'' ''Mint'' 6]\<rparr>"

definition exSelfTokenBody :: tx_body where
  "exSelfTokenBody =
     \<lparr>signatures = [''sigSelf''], accountKeys = [''Me'', ''MeAtaA'', ''MeAtaB''],
      instructions = [exTransfer ''spl-token'' ''MeAtaA'' ''MeAtaB'' (Some ''Me'')]\<rparr>"

definition exSelfToken :: parsed_tx where
  "exSelfToken =
     \<lparr>blockTime = Some 1709078400, meta = Some exSelfTokenMeta,
      transaction = Some exSelfTokenBody\<rparr>"

definition exSelfTokenEvents :: "formatted_transaction list" where
  "exSelfTokenEvents =
     [\<lparr>signature = Some ''sigSelf'', tx_type = Sent, token = ''Mint'', amount = 6,
       tx_from = ''Me'', tx_to = ''Me'', time = Some 1709078400000\<rparr>,
      \<lparr>signature = Some ''sigSelf'', tx_type = Received, token = ''Mint'', amount = 6,
       tx_from = ''Me'', tx_to = ''Me'', time = Some 1709078400000\<rparr>]"

text \<open>
  \<open>Me\<close> transfers lamports to itself and pays a 10000 lamport fee.
\<close>

definition exSelfSolMeta :: tx_meta where
  "exSelfSolMeta =
     \<lparr>err = None, preBalances = [1000000000, 1], postBalances = [999990000, 1],
      innerInstructions = None, preTokenBalances = Some [], postTokenBalances = Some []\<rparr>"

definition exSelfSolBody :: tx_body where
  "exSelfSolBody =
     \<lparr>signatures = [''sigSelfSol''], accountKeys = [''Me'', ''System''],
      instructions = [exTransfer ''system'' ''Me'' ''Me'' None]\<rparr>"

definition exSelfSol :: parsed_tx where
  "exSelfSol =
     \<lparr>blockTime = Some 1709078400, meta = Some exSelfSolMeta,
      transaction = Some exSelfSolBody\<rparr>"

text \<open>
  The same self-transfer in a transaction that also carries 5 USDC from \<open>Caro\<close> to
  \<open>Me\<close>.
\<close>

definition exBothMeta :: tx_meta where
  "exBothMeta =
     \<lparr>err = None,
      preBalances = [1000000000, 2039280, 2039280, 1],
      postBalances = [999990000, 2039280, 2039280, 1],
      innerInstructions = None,
      preTokenBalances = Some [exToken 1 ''Caro'' USDC_MINT 50, exToken 2 ''Me'' USDC_MINT 0],
      postTokenBalances = Some [exToken 1 ''Caro'' USDC_MINT 45, exToken 2 ''Me'' USDC_MINT 5]\<rparr>"

definition exBothBody :: tx_body where
  "exBothBody =
     \<lparr>signatures = [''sigBoth''], accountKeys = [''Me'', ''CaroAta'', ''MeAta'', ''Caro''],
      instructions = [exTransfer ''system'' ''Me'' ''Me'' None,
                      exTransfer ''spl-token'' ''CaroAta'' ''MeAta'' (Some ''Caro'')]\<rparr>"

definition exBoth :: parsed_tx where
  "exBoth =
     \<lparr>blockTime = Some 1709078400, meta = Some exBothMeta, transaction = Some exBothBody\<rparr>"

definition exBothTokenEvent :: formatted_transaction where
  "exBothTokenEvent =
     \<lparr>signature = Some ''sigBoth'', tx_type = Received, token = ''USDC'', amount = 5,
      tx_from = ''Caro'', tx_to = ''Me'', time = Some 1709078400000\<rparr>"

text \<open>
  Balances beyond \<open>2^53\<close>, no parsed transfer: \<open>Me\<close> loses \<open>2^55\<close> lamports,
  \<open>Ann\<close> gains \<open>2^54 - 1\<close> and \<open>Bob\<close> gains \<open>2^54\<close>.
\<close>

definition exLargeMeta :: tx_meta where
  "exLargeMeta =
     \<lparr>err = None,
      preBalances = [36028797018963968, 1, 0],
      postBalances = [0, 18014398509481984, 18014398509481984],
      innerInstructions = None, preTokenBalances = None, postTokenBalances = None\<rparr>"

definition exLargeBody :: tx_body where
  "exLargeBody =
     \<lparr>signatures = [''sigLarge''], accountKeys = [''Me'', ''Ann'', ''Bob''],
      instructions = []\<rparr>"

section \<open>Example screen states\<close>

text \<open>
  The screen shows the newest page (the send, then the token receipt); the cursor is the
  signature of its last event. \<open>exHistory\<close> serves that page for no cursor and the
  mint as the page before \<open>sigDust\<close>; \<open>exFailing\<close> is the service while the RPC
  node is unreachable.
\<close>

definition exState :: screen_state where
  "exState =
     \<lparr>transactions = [exSendEvent, exDustEvent], loading = False, refreshing = False,
      loadingMore = False, error = None, lastSignature = Some ''sigDust'', hasMore = True\<rparr>"

definition exHistory :: history where
  "exHistory before =
     (if before = None then Some [exSendEvent, exDustEvent]
      else if before = Some ''sigDust'' then Some [exMintEvent]
      else Some [])"

definition exFailing :: history where
  "exFailing before = None"

section \<open>Example calendar\<close>

text \<open>
  A calendar for the first days of March 2024 in UTC; \<open>exToday\<close> is noon of March 1.
\<close>

definition exCal :: "int \<Rightarrow> date_view" where
  "exCal d =
     (if d div 86400000 = 19783
      then \<lparr>getFullYear = 2024, getMonth = 2, getDate = 1,
            toLocaleDateString = ''March 1, 2024''\<rparr>
      else if d div 86400000 = 19782
      then \<lparr>getFullYear = 2024, getMonth = 1, getDate = 29,
            toLocaleDateString = ''February 29, 2024''\<rparr>
      else \<lparr>getFullYear = 2024, getMonth = 1, getDate = 28,
            toLocaleDateString = ''February 28, 2024''\<rparr>)"

definition exToday :: int where
  "exToday = 1709294400000"

definition exYesterday :: int where
  "exYesterday = 1709208000000"

section \<open>Rounding to a double\<close>

lemma bitLength_upper: "n < 2 ^ k \<Longrightarrow> bitLength n \<le> k"
proof (induction n arbitrary: k rule: bitLength.induct)
  case (1 n)
  show ?case
  proof (cases "n = 0")
    case True
    then show ?thesis by (simp add: bitLength.simps)
  next
    case False
    with "1.prems" obtain k' where k: "k = Suc k'" by (cases k) auto
    with "1.prems" have "n div 2 < 2 ^ k'" by auto
    from "1.IH"[OF False this] False k show ?thesis by (simp add: bitLength.simps[of n])
  qed
qed

lemma bitLength_lower: "2 ^ k \<le> n \<Longrightarrow> Suc k \<le> bitLength n"
proof (induction n arbitrary: k rule: bitLength.induct)
  case (1 n)
  have "(0::nat) < 2 ^ k" by simp
  with "1.prems" have nz: "n \<noteq> 0" by linarith
  show ?case
  proof (cases k)
    case 0
    with nz show ?thesis by (simp add: bitLength.simps[of n])
  next
    case (Suc k')
    with "1.prems" have "2 ^ k' \<le> n div 2" by auto
    from "1.IH"[OF nz this] nz Suc show ?thesis by (simp add: bitLength.simps[of n])
  qed
qed

lemma bitLength_eq: "2 ^ k \<le> n \<Longrightarrow> n < 2 ^ Suc k \<Longrightarrow> bitLength n = Suc k"
  using bitLength_lower[of k n] bitLength_upper[of n "Suc k"] by simp

text \<open>Integers of fewer than 54 binary digits are doubles.\<close>

lemma toDouble_exact: "\<bar>x\<bar> < 9007199254740992 \<Longrightarrow> toDouble x = x"
proof -
  assume "\<bar>x\<bar> < 9007199254740992"
  then have "nat \<bar>x\<bar> < 2 ^ 53" by simp
  from bitLength_upper[OF this] have "bitLength (nat \<bar>x\<bar>) - 53 = 0" by simp
  then show ?thesis by (simp add: toDouble_def Let_def mult_sgn_abs)
qed

text \<open>
  So the difference of two balances of at most \<open>2^53\<close> lamports is computed exactly.
\<close>

lemma bitLength_2_53: "bitLength 9007199254740992 = 54"
  using bitLength_eq[of 53 9007199254740992] by simp

lemma toDouble_2_53: "toDouble 9007199254740992 = 9007199254740992"
  "toDouble (- 9007199254740992) = - 9007199254740992"
  by (simp_all add: toDouble_def Let_def bitLength_2_53)

lemma balanceDiff_exact:
  assumes "elemAt post i = Some a" "elemAt pre i = Some b"
    and "0 \<le> a" "a \<le> 9007199254740992" "0 \<le> b" "b \<le> 9007199254740992"
  shows "balanceDiff post pre i = Some (a - b)"
proof -
  from assms(3-6) consider "\<bar>a - b\<bar> < 9007199254740992"
    | "a - b = 9007199254740992" | "a - b = - 9007199254740992"
    by linarith
  then have "toDouble (a - b) = a - b"
    by cases (simp_all add: toDouble_exact toDouble_2_53)
  with assms(1,2) show ?thesis by (simp add: balanceDiff_def)
qed

text \<open>Beyond \<open>2^53\<close> the difference is rounded: \<open>2^54 - 1\<close> becomes \<open>2^54\<close>.\<close>

lemma bitLength_large:
  "bitLength 18014398509481983 = 54"
  "bitLength 18014398509481984 = 55"
  "bitLength 36028797018963968 = 56"
  using bitLength_eq[of 53 18014398509481983] bitLength_eq[of 54 18014398509481984]
    bitLength_eq[of 55 36028797018963968]
  by simp_all

lemma toDouble_large:
  "toDouble 18014398509481983 = 18014398509481984"
  "toDouble 18014398509481984 = 18014398509481984"
  "toDouble (- 36028797018963968) = - 36028797018963968"
  by (simp_all add: toDouble_def Let_def bitLength_large)

section \<open>Structure of the formatter\<close>

lemma tokenLoop_append: "tokenLoop body posts result = result @ List.map_filter body posts"
  by (induction posts arbitrary: result) (auto simp: List.map_filter_simps split: option.splits)

lemma tokenTransfers_append: "tokenTransfers a tx m t result = result @ tokenTransfers a tx m t []"
  by (simp add: tokenTransfers_def Let_def tokenLoop_append[of _ _ result] tokenLoop_append[of _ _ "[]"])

lemma formatOne_append: "formatOne a tx result = result @ formatOne a tx []"
proof -
  have "tokenTransfers a tx m t (result @ evs) = result @ tokenTransfers a tx m t evs" for m t evs
    using tokenTransfers_append[of a tx m t "result @ evs"] tokenTransfers_append[of a tx m t evs]
    by simp
  then show ?thesis
    by (simp add: formatOne_def split: option.splits)
qed

lemma formatLoop_concat: "formatLoop a txs result = result @ concat (map (\<lambda>tx. formatOne a tx []) txs)"
proof (induction txs arbitrary: result)
  case Nil show ?case by simp
next
  case (Cons tx txs)
  show ?case using Cons[of "formatOne a tx result"] formatOne_append[of a tx result] by simp
qed

lemma formatTransactions_single: "formatTransactions a [tx] = formatOne a tx []"
  by (simp add: formatTransactions_def)

lemma formatTransactions_concat: "formatTransactions a txs = concat (map (\<lambda>tx. formatTransactions a [tx]) txs)"
  by (simp add: formatTransactions_def formatLoop_concat)

lemma formatOne_legs: "formatOne a tx [] = (if nativeLegDiscarded a tx then [] else nativeEvents a tx @ tokenEvents a tx)"
proof (cases "meta tx")
  case None
  then show ?thesis
    by (simp add: formatOne_def nativeLegDiscarded_def nativeEvents_def tokenEvents_def)
next
  case m: (Some m)
  show ?thesis
  proof (cases "transaction tx")
    case None
    with m show ?thesis
      by (simp add: formatOne_def nativeLegDiscarded_def nativeEvents_def tokenEvents_def)
  next
    case t: (Some t)
    show ?thesis
    proof (cases "solTransfers a m t (txSignature t) (txTime tx)")
      case None
      with m t show ?thesis
        by (simp add: formatOne_def nativeLegDiscarded_def nativeEvents_def tokenEvents_def)
    next
      case (Some evs)
      with m t tokenTransfers_append[of a tx m t evs] show ?thesis
        by (simp add: formatOne_def nativeLegDiscarded_def nativeEvents_def tokenEvents_def)
    qed
  qed
qed

lemma solTransfers_length: "solTransfers a m t sig tm = Some evs \<Longrightarrow> length evs \<le> 1"
  by (auto simp: solTransfers_def Let_def split: option.splits if_splits)

lemma nativeEvents_length: "length (nativeEvents a tx) \<le> 1"
  by (auto simp: nativeEvents_def dest: solTransfers_length split: option.splits)

section \<open>The scans keep the first largest change\<close>

lemma sentStep_scan: "sentStep keys pre post myIndex = scanStep (gain post pre) keys myIndex"
  by (auto simp: fun_eq_iff sentStep_def scanStep_def gain_def split: option.splits)

lemma receivedStep_scan: "receivedStep keys pre post myIndex = scanStep (loss post pre) keys myIndex"
  by (auto simp: fun_eq_iff receivedStep_def scanStep_def loss_def split: option.splits)

lemma scan_invariant:
  "fold (scanStep f keys myIndex) [0..<n] (MIN_SOL_CHANGE, ''external'') = (mc, cp) \<Longrightarrow>
     (noneExceeds f n myIndex \<and> mc = MIN_SOL_CHANGE \<and> cp = ''external'')
     \<or> (\<exists>i. largestFirst f n myIndex i \<and> f i = Some mc \<and> cp = keys ! i)"
proof (induction n arbitrary: mc cp)
  case 0
  then show ?case by (simp add: noneExceeds_def)
next
  case (Suc n)
  obtain mc0 cp0 where st: "fold (scanStep f keys myIndex) [0..<n] (MIN_SOL_CHANGE, ''external'') = (mc0, cp0)"
    by (cases "fold (scanStep f keys myIndex) [0..<n] (MIN_SOL_CHANGE, ''external'')") auto
  have step: "scanStep f keys myIndex n (mc0, cp0) = (mc, cp)"
    using Suc.prems st by simp
  note IH = Suc.IH[OF st]
  show ?case
  proof (cases "n \<noteq> myIndex \<and> (\<exists>d. f n = Some d \<and> d > mc0)")
    case True
    then obtain d where d: "f n = Some d" "d > mc0" "n \<noteq> myIndex" by auto
    with step have res: "mc = d" "cp = keys ! n" by (auto simp: scanStep_def)
    have ge: "mc0 \<ge> MIN_SOL_CHANGE" using IH by (auto simp: largestFirst_def split: option.splits)
    have "largestFirst f (Suc n) myIndex n"
      using IH d ge
      by (auto simp: largestFirst_def noneExceeds_def less_Suc_eq split: option.splits)
    with res d show ?thesis by auto
  next
    case False
    with step have res: "mc = mc0" "cp = cp0"
      by (auto simp: scanStep_def split: option.splits if_splits)
    from IH show ?thesis
    proof
      assume a: "noneExceeds f n myIndex \<and> mc0 = MIN_SOL_CHANGE \<and> cp0 = ''external''"
      with False have "noneExceeds f (Suc n) myIndex"
        by (auto simp: noneExceeds_def less_Suc_eq split: option.splits)
      with a res show ?thesis by simp
    next
      assume "\<exists>i. largestFirst f n myIndex i \<and> f i = Some mc0 \<and> cp0 = keys ! i"
      then obtain i where i: "largestFirst f n myIndex i" "f i = Some mc0" "cp0 = keys ! i" by auto
      with False have "largestFirst f (Suc n) myIndex i"
        by (auto simp: largestFirst_def less_Suc_eq split: option.splits)
      with i res show ?thesis by auto
    qed
  qed
qed

lemma indexOf_Some: "indexOf xs x = Some i \<Longrightarrow> i < length xs \<and> xs ! i = x"
  by (induction xs arbitrary: i) (auto split: if_splits)

lemma solFallback_found:
  assumes "indexOf (accountKeys t) myAddress = Some myIndex"
  shows "solFallback m t myAddress =
     (if trackedNegative m myIndex
      then \<lparr>from_addr = myAddress,
            to_addr = snd (fold (scanStep (gain (postBalances m) (preBalances m)) (accountKeys t) myIndex)
                        [0..<length (accountKeys t)] (MIN_SOL_CHANGE, ''external''))\<rparr>
      else \<lparr>from_addr = snd (fold (scanStep (loss (postBalances m) (preBalances m)) (accountKeys t) myIndex)
                        [0..<length (accountKeys t)] (MIN_SOL_CHANGE, ''external'')),
            to_addr = myAddress\<rparr>)"
  using assms
  by (simp add: solFallback_def Let_def trackedNegative_def sentStep_scan receivedStep_scan)

lemma scan_result:
  "(\<exists>i. largestFirst f n myIndex i
        \<and> snd (fold (scanStep f keys myIndex) [0..<n] (MIN_SOL_CHANGE, ''external'')) = keys ! i)
   \<or> (noneExceeds f n myIndex
        \<and> snd (fold (scanStep f keys myIndex) [0..<n] (MIN_SOL_CHANGE, ''external'')) = ''external'')"
proof -
  obtain mc cp where st: "fold (scanStep f keys myIndex) [0..<n] (MIN_SOL_CHANGE, ''external'') = (mc, cp)"
    by (cases "fold (scanStep f keys myIndex) [0..<n] (MIN_SOL_CHANGE, ''external'')") auto
  from scan_invariant[OF st] st show ?thesis by auto
qed

lemma largestFirst_less:
  assumes "largestFirst f n k i" "largestFirst f n k j" "i < j"
  shows False
proof -
  from assms(1) obtain d where d: "f i = Some d" "i < n" "i \<noteq> k"
    and di: "\<forall>j'<n. j' \<noteq> k \<longrightarrow> (case f j' of None \<Rightarrow> True | Some e \<Rightarrow> e \<le> d \<and> (j' < i \<longrightarrow> e < d))"
    by (auto simp: largestFirst_def split: option.splits)
  from assms(2) obtain e where e: "f j = Some e" "j < n" "j \<noteq> k"
    and ej: "\<forall>j'<n. j' \<noteq> k \<longrightarrow> (case f j' of None \<Rightarrow> True | Some e' \<Rightarrow> e' \<le> e \<and> (j' < j \<longrightarrow> e' < e))"
    by (auto simp: largestFirst_def split: option.splits)
  from di e have "e \<le> d" by force
  moreover from ej d assms(3) have "d < e" by force
  ultimately show False by simp
qed

lemma largestFirst_unique:
  "largestFirst f n k i \<Longrightarrow> largestFirst f n k j \<Longrightarrow> i = j"
  using largestFirst_less[of f n k i j] largestFirst_less[of f n k j i]
  by (cases i j rule: linorder_cases) auto



section \<open>Direction of native-leg events\<close>

text \<open>
  The native leg keeps the tracked address on exactly one side of what it emits: the
  resolved pair names the tracked address, and a pair with equal sides is discarded.
\<close>

lemma find_None_set: "find P xs = None \<longleftrightarrow> (\<forall>x\<in>set xs. \<not> P x)"
  by (induction xs) auto

lemma find_Some_set: "find P xs = Some x \<Longrightarrow> x \<in> set xs \<and> P x"
  by (induction xs) (auto split: if_splits)

lemma extractSOL_tracked:
  assumes "indexOf (accountKeys t) a = Some i"
  shows "from_addr (extractSOLAddresses m t a) = a \<or> to_addr (extractSOLAddresses m t a) = a"
proof (cases "find (isSolTransfer a) (allInstructions m t)")
  case None
  then show ?thesis
    by (simp add: extractSOLAddresses_def solFallback_found[OF assms])
next
  case (Some ix)
  from find_Some_set[OF Some] have "source ix = a \<or> destination ix = a"
    by (simp add: isSolTransfer_def split: if_splits)
  with Some show ?thesis by (simp add: extractSOLAddresses_def)
qed

lemma scan_nonempty:
  assumes "\<forall>k\<in>set keys. k \<noteq> []"
  shows "snd (fold (scanStep f keys myIndex) [0..<length keys] (MIN_SOL_CHANGE, ''external'')) \<noteq> []"
  using scan_result[of f "length keys" myIndex keys] assms
  by (auto simp: largestFirst_def)

lemma extractSOL_nonempty:
  assumes "nonEmptyAddresses m t" "a \<noteq> []" "indexOf (accountKeys t) a = Some i"
  shows "from_addr (extractSOLAddresses m t a) \<noteq> [] \<and> to_addr (extractSOLAddresses m t a) \<noteq> []"
proof (cases "find (isSolTransfer a) (allInstructions m t)")
  case None
  from assms(1) have "\<forall>k\<in>set (accountKeys t). k \<noteq> []" by (simp add: nonEmptyAddresses_def)
  from scan_nonempty[OF this] None assms(2) show ?thesis
    by (simp add: extractSOLAddresses_def solFallback_found[OF assms(3)])
next
  case (Some ix)
  from find_Some_set[OF Some] have "ix \<in> set (allInstructions m t)"
    "program ix = Some ''system'' \<and> ptype ix = Some ''transfer''"
    by (auto simp: isSolTransfer_def split: if_splits)
  with assms(1) have "source ix \<noteq> [] \<and> destination ix \<noteq> []"
    by (auto simp: nonEmptyAddresses_def)
  with Some show ?thesis by (simp add: extractSOLAddresses_def)
qed

lemma solTransfers_exactlyOne:
  assumes "nonEmptyAddresses m t" "a \<noteq> []" "solTransfers a m t sig tm = Some evs" "e \<in> set evs"
  shows "exactlyOneTracked a e"
proof -
  from assms(3,4) obtain i where i: "indexOf (accountKeys t) a = Some i"
    by (auto simp: solTransfers_def split: option.splits)
  let ?r = "extractSOLAddresses m t a"
  from assms(3,4) i have ne: "from_addr ?r \<noteq> to_addr ?r"
    and e: "tx_from e = or_str (from_addr ?r) (if real_of_int (nativeDiff m i) / LAMPORTS_PER_SOL > 0 then ''external'' else a)"
           "tx_to e = or_str (to_addr ?r) (if real_of_int (nativeDiff m i) / LAMPORTS_PER_SOL > 0 then a else ''external'')"
    by (auto simp: solTransfers_def Let_def split: if_splits)
  from extractSOL_nonempty[OF assms(1,2) i] e
  have "tx_from e = from_addr ?r" "tx_to e = to_addr ?r" by (simp_all add: or_str_def)
  with ne extractSOL_tracked[OF i, of m] show ?thesis
    by (auto simp: exactlyOneTracked_def)
qed

lemma nativeEvents_exactlyOne:
  assumes "wellFormed tx" "a \<noteq> []" "e \<in> set (nativeEvents a tx)"
  shows "exactlyOneTracked a e"
  using assms solTransfers_exactlyOne[of _ _ a _ _ _ e]
  by (auto simp: nativeEvents_def wellFormed_def split: option.splits if_splits)

lemma in_map_filter: "y \<in> set (List.map_filter f xs) \<longleftrightarrow> (\<exists>x\<in>set xs. f x = Some y)"
  by (induction xs) (auto simp: List.map_filter_simps split: option.splits)

section \<open>Legs of one transaction\<close>

lemma solTransfers_self:
  assumes "from_addr (extractSOLAddresses m t a) = to_addr (extractSOLAddresses m t a)"
  shows "solTransfers a m t sig tm = None \<or> solTransfers a m t sig tm = Some []"
  using assms by (simp add: solTransfers_def Let_def split: option.splits)

text \<open>
  A native resolution with equal sides yields no native-leg event.
\<close>

lemma native_self_transfer_no_native_event:
  assumes "meta tx = Some m" and "transaction tx = Some t"
    and "from_addr (extractSOLAddresses m t accountAddress)
         = to_addr (extractSOLAddresses m t accountAddress)"
  shows "nativeEvents accountAddress tx = []
       \<and> set (formatTransactions accountAddress [tx]) \<subseteq> set (tokenEvents accountAddress tx)"
proof -
  from solTransfers_self[OF assms(3), of "txSignature t" "txTime tx"] assms(1,2)
  have n: "nativeEvents accountAddress tx = []"
    by (auto simp: nativeEvents_def)
  then show ?thesis
    by (simp add: formatTransactions_single formatOne_legs)
qed

text \<open>
  C6. When the tracked address's lamport change \<open>d\<close> (post minus pre) satisfies
  \<open>|d| \<le> 5000\<close>, \<open>formatTransactions\<close> emits no native-leg event for the
  transaction: its events are exactly the token-leg events.
\<close>

theorem dust_filtered:
  assumes "meta tx = Some m" and "transaction tx = Some t"
    and "indexOf (accountKeys t) accountAddress = Some myIndex"
    and "\<bar>nativeDiff m myIndex\<bar> \<le> 5000"
  shows "nativeEvents accountAddress tx = []
       \<and> formatTransactions accountAddress [tx] = tokenEvents accountAddress tx"
proof -
  from assms(3,4) have s: "solTransfers accountAddress m t (txSignature t) (txTime tx) = Some []"
    by (simp add: solTransfers_def Let_def MIN_SOL_CHANGE_def)
  with assms(1,2) have "nativeEvents accountAddress tx = []"
    and "\<not> nativeLegDiscarded accountAddress tx"
    by (simp_all add: nativeEvents_def nativeLegDiscarded_def)
  then show ?thesis
    by (simp add: formatTransactions_single formatOne_legs)
qed

lemma formatOne_skipped:
  assumes "meta tx = None \<or> transaction tx = None \<or> (\<exists>m. meta tx = Some m \<and> err m \<noteq> None)"
  shows "formatOne a tx [] = []"
  using assms by (auto simp: formatOne_def split: option.splits)

text \<open>
  C9. A transaction without \<open>meta\<close>, without a transaction body, or with a non-null
  \<open>meta.err\<close> contributes no event, whatever balances it carries: alone it yields the
  empty list, and inside a list the output is that of the list without it.
\<close>

theorem skipped_transactions:
  assumes "meta tx = None \<or> transaction tx = None \<or> (\<exists>m. meta tx = Some m \<and> err m \<noteq> None)"
  shows "formatTransactions accountAddress [tx] = []
       \<and> formatTransactions accountAddress (earlier @ tx # later)
         = formatTransactions accountAddress (earlier @ later)"
  using formatOne_skipped[OF assms, of accountAddress]
  by (simp add: formatTransactions_def formatLoop_concat)

lemma tokenEvents_in_order:
  assumes "meta tx = Some m" "transaction tx = Some t" "err m = None"
  shows "tokenEvents a tx =
         List.map_filter
           (tokenTransfer a m t (txSignature t) (txTime tx)
              (nullish_list (preTokenBalances m)) (nullish_list (postTokenBalances m)))
           (nullish_list (postTokenBalances m))"
  using assms by (simp add: tokenEvents_def tokenTransfers_def Let_def tokenLoop_append)

text \<open>
  C10. The output is the concatenation, in input order, of the events of each
  transaction. The events of one transaction are either none or its native-leg event (at
  most one) followed by its token-leg events, and the token-leg events are those of the
  post-token-balance entries in list order.
\<close>

theorem output_order:
  "formatTransactions accountAddress txs
     = concat (map (\<lambda>tx. formatTransactions accountAddress [tx]) txs)
   \<and> formatTransactions accountAddress [tx]
     = (if nativeLegDiscarded accountAddress tx then []
        else nativeEvents accountAddress tx @ tokenEvents accountAddress tx)
   \<and> length (nativeEvents accountAddress tx) \<le> 1
   \<and> (meta tx = Some m \<and> transaction tx = Some t \<and> err m = None \<longrightarrow>
        tokenEvents accountAddress tx =
          List.map_filter
            (tokenTransfer accountAddress m t (txSignature t) (txTime tx)
               (nullish_list (preTokenBalances m)) (nullish_list (postTokenBalances m)))
            (nullish_list (postTokenBalances m)))"
  using formatTransactions_concat[of accountAddress txs]
        formatOne_legs[of accountAddress tx] nativeEvents_length[of accountAddress tx]
        tokenEvents_in_order[of tx m t accountAddress]
  by (simp add: formatTransactions_single)

text \<open>
  When the native leg is not discarded, both legs are emitted, and every event of a
  transaction carries its signature and time.
\<close>

lemma solTransfers_signature_time:
  assumes "solTransfers a m t sig tm = Some evs" "e \<in> set evs"
  shows "signature e = sig \<and> time e = tm"
  using assms by (auto simp: solTransfers_def Let_def split: option.splits if_splits)

lemma tokenTransfer_signature_time:
  assumes "tokenTransfer a m t sig tm pre posts post = Some e"
  shows "signature e = sig \<and> time e = tm"
  using assms by (auto simp: tokenTransfer_def Let_def split: if_splits)

lemma events_share_signature_time:
  assumes "transaction tx = Some t" "e \<in> set (formatTransactions a [tx])"
  shows "signature e = txSignature t \<and> time e = txTime tx"
proof -
  from assms(2) have "e \<in> set (nativeEvents a tx) \<or> e \<in> set (tokenEvents a tx)"
    by (auto simp: formatTransactions_single formatOne_legs split: if_splits)
  then show ?thesis
  proof
    assume "e \<in> set (nativeEvents a tx)"
    with assms(1) show ?thesis
      by (auto simp: nativeEvents_def dest: solTransfers_signature_time
               split: option.splits if_splits)
  next
    assume "e \<in> set (tokenEvents a tx)"
    with assms(1) show ?thesis
      by (auto simp: tokenEvents_def tokenTransfers_def Let_def tokenLoop_append in_map_filter
               dest: tokenTransfer_signature_time split: option.splits if_splits)
  qed
qed

lemma legs_emitted_unless_discarded:
  assumes "\<not> nativeLegDiscarded a tx"
  shows "formatTransactions a [tx] = nativeEvents a tx @ tokenEvents a tx"
  using assms by (simp add: formatTransactions_single formatOne_legs)

section \<open>Pagination\<close>

lemma fetch_hasMore:
  assumes "h (if reset then None else lastSignature s) = Some page"
  shows "hasMore (fetchTransactions h reset s) \<longleftrightarrow> (reset \<or> hasMore s) \<and> page \<noteq> []"
  using assms by (simp add: fetchTransactions_def Let_def)

lemma failed_fetch_without_reset:
  assumes "h (lastSignature s) = None"
  shows "transactions (fetchTransactions h False s) = transactions s
       \<and> lastSignature (fetchTransactions h False s) = lastSignature s
       \<and> hasMore (fetchTransactions h False s) = hasMore s
       \<and> error (fetchTransactions h False s) = Some ''Error loading transactions''"
  using assms by (simp add: fetchTransactions_def Let_def)

lemma failed_fetch_with_reset:
  assumes "h None = None"
  shows "transactions (fetchTransactions h True s) = transactions s
       \<and> lastSignature (fetchTransactions h True s) = None
       \<and> hasMore (fetchTransactions h True s)"
  using assms by (simp add: fetchTransactions_def Let_def)

lemma loadMore_noop: "\<not> hasMore s \<Longrightarrow> loadMore h s = s"
  by (simp add: loadMore_def)

lemma loadMore_many_noop: "\<not> hasMore s \<Longrightarrow> fold loadMore hs s = s"
  by (induction hs) (simp_all add: loadMore_noop)

text \<open>
  C5. After a successful \<open>fetchTransactions\<close>, \<open>hasMore\<close> holds exactly when it
  held going into the fetch (a reset sets it first) and the page is not empty: the call
  clears it if and only if the page is empty. Once \<open>hasMore\<close> is false,
  \<open>loadMore\<close> returns the state unchanged, and so does any number of further
  \<open>loadMore\<close> calls: the event list and the cursor stay as they are.
\<close>

theorem hasMore_cleared_on_empty_page:
  "(h (if reset then None else lastSignature s) = Some page \<longrightarrow>
      (hasMore (fetchTransactions h reset s) \<longleftrightarrow> (reset \<or> hasMore s) \<and> page \<noteq> []))
   \<and> (\<not> hasMore s \<longrightarrow>
        loadMore h s = s
        \<and> transactions (fold loadMore hs s) = transactions s
        \<and> lastSignature (fold loadMore hs s) = lastSignature s
        \<and> \<not> hasMore (fold loadMore hs s))"
  using fetch_hasMore[of h reset s page] loadMore_noop[of s h] loadMore_many_noop[of s hs]
  by auto


section \<open>Grouping\<close>

lemma firstSeen_set: "set (firstSeen xs) = set xs"
  by (induction xs) auto

lemma firstSeen_distinct: "distinct (firstSeen xs)"
  by (induction xs) (auto simp: firstSeen_set)

lemma firstSeen_snoc:
  "firstSeen (xs @ [x]) = (if x \<in> set xs then firstSeen xs else firstSeen xs @ [x])"
  by (induction xs) auto

lemma setProp_new: "k \<notin> fst ` set acc \<Longrightarrow> setProp acc k v = acc @ [(k, v)]"
  by (simp add: setProp_def)

lemma setProp_last:
  "k \<notin> fst ` set acc \<Longrightarrow> setProp (acc @ [(k, v)]) k w = acc @ [(k, w)]"
proof -
  assume a: "k \<notin> fst ` set acc"
  then have "map (\<lambda>(k', v'). if k' = k then (k', w) else (k', v')) acc = acc"
    by (induction acc) auto
  then show ?thesis by (simp add: setProp_def)
qed

lemma groupStep_new:
  assumes "map_of acc (titleOf tr) = None" "titleOf tr \<notin> set objectPrototypeKeys"
  shows "groupStep titleOf acc tr = Some (acc @ [(titleOf tr, [tr])])"
proof -
  from assms(1) have notin: "titleOf tr \<notin> fst ` set acc"
    by (simp add: map_of_eq_None_iff)
  from assms have u: "getProp acc (titleOf tr) = Undefined" by (simp add: getProp_def)
  have g: "getProp (acc @ [(titleOf tr, [])]) (titleOf tr) = Own []"
    using assms(1) by (simp add: getProp_def map_add_def)
  show ?thesis
    using u g notin by (simp add: groupStep_def Let_def setProp_new setProp_last)
qed

lemma groupStep_old:
  assumes "map_of acc (titleOf tr) = Some v"
  shows "groupStep titleOf acc tr
         = Some (map (\<lambda>(k', v'). if k' = titleOf tr then (k', v @ [tr]) else (k', v')) acc)"
proof -
  from assms have "titleOf tr \<in> fst ` set acc"
    by (metis map_of_eq_None_iff option.distinct(1))
  with assms show ?thesis
    by (simp add: groupStep_def Let_def getProp_def setProp_def)
qed

lemma groupStep_inv:
  assumes "groupInv titleOf seen acc" "titleOf tr \<notin> set objectPrototypeKeys"
  shows "\<exists>acc'. groupStep titleOf acc tr = Some acc' \<and> groupInv titleOf (seen @ [tr]) acc'"
proof (cases "map_of acc (titleOf tr)")
  case None
  then have notin: "titleOf tr \<notin> fst ` set acc" by (simp add: map_of_eq_None_iff)
  with assms(1) have fresh: "titleOf tr \<notin> titleOf ` set seen"
    by (metis firstSeen_set groupInv_def list.set_map)
  then have empty: "filter (\<lambda>x. titleOf x = titleOf tr) seen = []"
    by (metis (mono_tags, lifting) filter_False image_eqI)
  have "groupInv titleOf (seen @ [tr]) (acc @ [(titleOf tr, [tr])])"
    unfolding groupInv_def
  proof (intro conjI)
    show "map fst (acc @ [(titleOf tr, [tr])]) = firstSeen (map titleOf (seen @ [tr]))"
      using assms(1) fresh by (simp add: groupInv_def firstSeen_snoc)
    show "\<forall>(k, w) \<in> set (acc @ [(titleOf tr, [tr])]). w = filter (\<lambda>x. titleOf x = k) (seen @ [tr])"
    proof (clarify)
      fix k w assume kw: "(k, w) \<in> set (acc @ [(titleOf tr, [tr])])"
      show "w = filter (\<lambda>x. titleOf x = k) (seen @ [tr])"
      proof (cases "(k, w) \<in> set acc")
        case True
        with notin have "k \<noteq> titleOf tr" by force
        moreover from True assms(1) have "w = filter (\<lambda>x. titleOf x = k) seen"
          by (auto simp: groupInv_def)
        ultimately show ?thesis by auto
      next
        case False
        with kw have "k = titleOf tr" "w = [tr]" by auto
        with empty show ?thesis by simp
      qed
    qed
  qed
  with groupStep_new[of acc titleOf tr] None assms(2) show ?thesis by simp
next
  case (Some v)
  then have mem: "(titleOf tr, v) \<in> set acc" by (rule map_of_SomeD)
  then have known: "titleOf tr \<in> titleOf ` set seen"
    using assms(1) by (metis firstSeen_set groupInv_def list.set_map fst_conv image_eqI)
  from mem assms(1) have v: "v = filter (\<lambda>x. titleOf x = titleOf tr) seen"
    by (auto simp: groupInv_def)
  let ?acc' = "map (\<lambda>(k', v'). if k' = titleOf tr then (k', v @ [tr]) else (k', v')) acc"
  have keys: "map fst ?acc' = map fst acc" by (induction acc) auto
  have "groupInv titleOf (seen @ [tr]) ?acc'"
    unfolding groupInv_def
  proof (intro conjI)
    show "map fst ?acc' = firstSeen (map titleOf (seen @ [tr]))"
    proof -
      from assms(1) have "map fst acc = firstSeen (map titleOf seen)"
        by (simp add: groupInv_def)
      moreover from known have "firstSeen (map titleOf (seen @ [tr])) = firstSeen (map titleOf seen)"
        by (simp add: firstSeen_snoc)
      ultimately show ?thesis using keys by (simp only:)
    qed
    show "\<forall>(k, w) \<in> set ?acc'. w = filter (\<lambda>x. titleOf x = k) (seen @ [tr])"
    proof (clarify)
      fix k w assume "(k, w) \<in> set ?acc'"
      then obtain k0 w0 where o: "(k0, w0) \<in> set acc"
        "(k, w) = (if k0 = titleOf tr then (k0, v @ [tr]) else (k0, w0))"
        by auto
      from o(1) assms(1) have w0: "w0 = filter (\<lambda>x. titleOf x = k0) seen"
        by (auto simp: groupInv_def)
      show "w = filter (\<lambda>x. titleOf x = k) (seen @ [tr])"
      proof (cases "k0 = titleOf tr")
        case True
        with o(2) v show ?thesis by simp
      next
        case False
        with o(2) w0 show ?thesis by auto
      qed
    qed
  qed
  with groupStep_old[of acc titleOf tr v] Some show ?thesis by simp
qed

lemma reduceGroups_inv:
  assumes "groupInv titleOf seen acc" "\<forall>tr\<in>set txs. titleOf tr \<notin> set objectPrototypeKeys"
  shows "\<exists>acc'. reduceGroups titleOf txs acc = Some acc' \<and> groupInv titleOf (seen @ txs) acc'"
  using assms
proof (induction txs arbitrary: seen acc)
  case Nil
  then show ?case by simp
next
  case (Cons tr txs)
  from groupStep_inv[OF Cons.prems(1), of tr] Cons.prems(2)
  obtain acc1 where s: "groupStep titleOf acc tr = Some acc1" "groupInv titleOf (seen @ [tr]) acc1"
    by auto
  from Cons.IH[OF s(2)] Cons.prems(2) s(1) show ?case by simp
qed

lemma objectKeys_ordinary:
  assumes "\<forall>k\<in>fst ` set acc. \<not> isArrayIndex k"
  shows "objectKeys acc = map fst acc"
proof -
  from assms have "filter isArrayIndex (map fst acc) = []"
    by (auto simp: filter_empty_conv)
  moreover from assms have "filter (\<lambda>k. \<not> isArrayIndex k) (map fst acc) = map fst acc"
    by (auto simp: filter_id_conv)
  ultimately show ?thesis by (simp add: objectKeys_def)
qed

lemma mset_by_keys:
  assumes "distinct ks"
  shows "mset (concat (map (\<lambda>k. filter (\<lambda>tr. f tr = k) xs) ks))
         = mset (filter (\<lambda>tr. f tr \<in> set ks) xs)"
  using assms
proof (induction ks)
  case Nil
  then show ?case by simp
next
  case (Cons k ks)
  have "mset (filter (\<lambda>tr. f tr = k) xs) + mset (filter (\<lambda>tr. f tr \<in> set ks) xs)
        = mset (filter (\<lambda>tr. f tr \<in> set (k # ks)) xs)"
    using Cons.prems by (induction xs) auto
  with Cons show ?case by simp
qed

lemma ordinary_today: "ordinaryKey ''Today''" "ordinaryKey ''Yesterday''"
  by (simp_all add: ordinaryKey_def isArrayIndex_def objectPrototypeKeys_def)

lemma sectionTitle_ordinary:
  assumes "ordinaryKey (toLocaleDateString (cal (eventDate now tr)))"
  shows "ordinaryKey (sectionTitle cal today yesterday now tr)"
  using assms ordinary_today by (simp add: sectionTitle_def Let_def)

lemma grouped_sections:
  assumes inv: "groupInv f txs acc" and ord: "\<forall>tr\<in>set txs. ordinaryKey (f tr)"
  defines "sections \<equiv> map (\<lambda>k. \<lparr>title = k, data = (case map_of acc k of None \<Rightarrow> [] | Some v \<Rightarrow> v)\<rparr>)
                         (objectKeys acc)"
  shows "map title sections = firstSeen (map f txs)"
    and "\<forall>s\<in>set sections. data s = filter (\<lambda>tr. f tr = title s) txs"
    and "mset (concat (map data sections)) = mset txs"
proof -
  from inv have keys: "map fst acc = firstSeen (map f txs)"
    and vals: "\<And>k v. (k, v) \<in> set acc \<Longrightarrow> v = filter (\<lambda>tr. f tr = k) txs"
    by (auto simp: groupInv_def)
  have dist: "distinct (map fst acc)" by (simp add: keys firstSeen_distinct)
  have kset: "fst ` set acc = f ` set txs"
    using keys by (metis firstSeen_set list.set_map)
  with ord have "\<forall>k\<in>fst ` set acc. \<not> isArrayIndex k"
    by (auto simp: ordinaryKey_def)
  then have ok: "objectKeys acc = map fst acc" by (rule objectKeys_ordinary)
  have look: "(case map_of acc k of None \<Rightarrow> [] | Some v \<Rightarrow> v) = filter (\<lambda>tr. f tr = k) txs"
    if "k \<in> fst ` set acc" for k
  proof -
    from that obtain v where v: "(k, v) \<in> set acc" by auto
    with dist have "map_of acc k = Some v" by simp
    with vals[OF v] show ?thesis by simp
  qed
  have sec: "sections = map (\<lambda>k. \<lparr>title = k, data = filter (\<lambda>tr. f tr = k) txs\<rparr>) (map fst acc)"
    unfolding sections_def ok using look by (simp add: comp_def)
  show "map title sections = firstSeen (map f txs)"
    by (simp add: sec comp_def keys[symmetric])
  show "\<forall>s\<in>set sections. data s = filter (\<lambda>tr. f tr = title s) txs"
    by (auto simp: sec)
  have "concat (map data sections) = concat (map (\<lambda>k. filter (\<lambda>tr. f tr = k) txs) (map fst acc))"
    by (simp add: sec comp_def)
  also have "mset \<dots> = mset (filter (\<lambda>tr. f tr \<in> set (map fst acc)) txs)"
    using dist by (rule mset_by_keys)
  also have "\<dots> = mset txs"
    using kset by simp
  finally show "mset (concat (map data sections)) = mset txs" .
qed

text \<open>
  C8. For every list of events whose long-form date labels are ordinary keys,
  \<open>groupTransactionsByDate\<close> returns sections whose titles are the labels of the
  input in first-seen order, each title once, each section holding exactly the input
  events with its label, in input order; together the sections hold every input event
  once.
\<close>

theorem grouping_preserves_order:
  assumes "\<forall>tr\<in>set txs. ordinaryKey (toLocaleDateString (cal (eventDate now tr)))"
  shows "\<exists>sections.
           groupTransactionsByDate cal today yesterday now txs = Some sections
           \<and> map title sections = firstSeen (map (sectionTitle cal today yesterday now) txs)
           \<and> distinct (map title sections)
           \<and> (\<forall>s\<in>set sections.
                 data s = filter (\<lambda>tr. sectionTitle cal today yesterday now tr = title s) txs)
           \<and> mset (concat (map data sections)) = mset txs"
proof (cases "txs = []")
  case True
  then show ?thesis by (simp add: groupTransactionsByDate_def)
next
  case False
  let ?f = "sectionTitle cal today yesterday now"
  from assms have ord: "\<forall>tr\<in>set txs. ordinaryKey (?f tr)"
    by (simp add: sectionTitle_ordinary)
  then have proto: "\<forall>tr\<in>set txs. ?f tr \<notin> set objectPrototypeKeys"
    by (simp add: ordinaryKey_def)
  have "groupInv ?f [] []" by (simp add: groupInv_def)
  from reduceGroups_inv[OF this proto] obtain acc
    where acc: "reduceGroups ?f txs [] = Some acc" "groupInv ?f txs acc" by auto
  from False acc(1) have g: "groupTransactionsByDate cal today yesterday now txs
      = Some (map (\<lambda>k. \<lparr>title = k, data = (case map_of acc k of None \<Rightarrow> [] | Some v \<Rightarrow> v)\<rparr>)
                (objectKeys acc))"
    by (simp add: groupTransactionsByDate_def)
  let ?sections = "map (\<lambda>k. \<lparr>title = k, data = (case map_of acc k of None \<Rightarrow> [] | Some v \<Rightarrow> v)\<rparr>)
                     (objectKeys acc)"
  note gs = grouped_sections[OF acc(2) ord]
  from gs(1) have "distinct (map title ?sections)"
    by (simp only: firstSeen_distinct)
  with gs g show ?thesis by (intro exI[of _ ?sections] conjI)
qed

section \<open>The examples, evaluated\<close>

lemmas ex_defs =
  exLargeMeta_def exLargeBody_def exTransfer_def exToken_def exSendMeta_def exSendBody_def exSend_def exSendEvent_def
  exFailed_def exFallbackMeta_def exFallbackBody_def exDustMeta_def exDustBody_def exDust_def
  exDustEvent_def exMint_def exMintEvent_def exSelfTokenMeta_def exSelfTokenBody_def
  exSelfToken_def exSelfTokenEvents_def exSelfSolMeta_def exSelfSolBody_def exSelfSol_def
  exBothMeta_def exBothBody_def exBoth_def exBothTokenEvent_def

lemmas js_defs =
  elemAt_def balanceDiff_def toDouble_exact or_str_def or_opt_def or_zero_def nullish_zero_def
  nullish_list_def MIN_SOL_CHANGE_def LAMPORTS_PER_SOL_def USDC_MINT_def

lemmas resolver_defs =
  allInstructions_def isSolTransfer_def sentStep_def receivedStep_def solFallback_def
  extractSOLAddresses_def isTokenTransfer_def resolveOwner_def extractTokenAddresses_def

lemmas formatter_defs =
  nativeDiff_def solTransfers_def tokenTransfer_def txSignature_def txTime_def
  tokenTransfers_def formatOne_def formatTransactions_def nativeEvents_def tokenEvents_def
  nativeLegDiscarded_def Let_def

lemma exSend_events: "formatTransactions ''Me'' [exSend] = [exSendEvent]"
  by (simp add: ex_defs js_defs resolver_defs formatter_defs)

lemma exDust_events: "formatTransactions ''Me'' [exDust] = [exDustEvent]"
  by (simp add: ex_defs js_defs resolver_defs formatter_defs)

lemma exMint_events: "formatTransactions ''Me'' [exMint] = [exMintEvent]"
  by (simp add: ex_defs js_defs resolver_defs formatter_defs)

lemma exSelfToken_events: "formatTransactions ''Me'' [exSelfToken] = exSelfTokenEvents"
  by (simp add: ex_defs js_defs resolver_defs formatter_defs)

lemma exSelfSol_events: "formatTransactions ''Me'' [exSelfSol] = []"
  by (simp add: ex_defs js_defs resolver_defs formatter_defs)

lemma exBoth_events: "formatTransactions ''Me'' [exBoth] = []"
  by (simp add: ex_defs js_defs resolver_defs formatter_defs)

lemma exBoth_tokens: "tokenEvents ''Me'' exBoth = [exBothTokenEvent]"
  by (simp add: ex_defs js_defs resolver_defs formatter_defs)


text \<open>
  With balances beyond \<open>2^53\<close> the computed changes decide: the gain of \<open>Ann\<close>,
  \<open>2^54 - 1\<close>, is computed as \<open>2^54\<close> and ties with the gain of \<open>Bob\<close>, so
  \<open>Ann\<close>, met first, is the receiver.
\<close>

lemma exLarge_changes:
  "gain (postBalances exLargeMeta) (preBalances exLargeMeta) 0 = Some (- 36028797018963968)"
  "gain (postBalances exLargeMeta) (preBalances exLargeMeta) 1 = Some 18014398509481984"
  "gain (postBalances exLargeMeta) (preBalances exLargeMeta) 2 = Some 18014398509481984"
  by (simp_all add: gain_def balanceDiff_def elemAt_def exLargeMeta_def toDouble_large)

lemma exLarge_addresses:
  "extractSOLAddresses exLargeMeta exLargeBody ''Me''
   = \<lparr>from_addr = ''Me'', to_addr = ''Ann''\<rparr>"
  by (simp add: ex_defs resolver_defs elemAt_def balanceDiff_def toDouble_large
      MIN_SOL_CHANGE_def upt_rec)


text \<open>
  C1. Every emitted event should have exactly one of \<open>from\<close> and \<open>to\<close> equal to
  the tracked address. Here ten tokens are minted to the tracked wallet: the token
  resolver finds no transfer instruction and answers \<open>external\<close> for both sides,
  the token loop has no test for equal sides, and the event is emitted with neither side
  the tracked address.
\<close>

theorem mint_event_has_no_tracked_side:
  "formatTransactions ''Me'' [exMint] = [exMintEvent]
   \<and> tx_from exMintEvent = tx_to exMintEvent
   \<and> \<not> exactlyOneTracked ''Me'' exMintEvent"
  by (simp add: exMint_events) (simp add: exactlyOneTracked_def exMintEvent_def)

text \<open>
  C2. A resolved pair with \<open>from\<close> equal to \<open>to\<close> should yield no event for its
  leg. Here the tracked wallet moves tokens between two token accounts of its own: the
  token resolution yields the tracked address on both sides, and the token loop, which
  has no test for equal sides, emits both token-leg events.
\<close>

theorem token_self_transfer_emitted:
  "from_addr (extractTokenAddresses exSelfTokenMeta exSelfTokenBody ''Me''
                (nullish_list (preTokenBalances exSelfTokenMeta))
                (nullish_list (postTokenBalances exSelfTokenMeta)))
   = to_addr (extractTokenAddresses exSelfTokenMeta exSelfTokenBody ''Me''
                (nullish_list (preTokenBalances exSelfTokenMeta))
                (nullish_list (postTokenBalances exSelfTokenMeta)))
   \<and> formatTransactions ''Me'' [exSelfToken] = exSelfTokenEvents
   \<and> length exSelfTokenEvents = 2"
  by (simp add: exSelfToken_events) (simp add: ex_defs js_defs resolver_defs)

text \<open>
  C3. A transaction whose native change exceeds the dust threshold and whose token
  balance changed should yield its token-leg event even when the native leg is discarded
  as a self-transfer. Here the native leg is a self-transfer and the token loop alone
  would emit the receipt of 5 USDC, yet \<open>formatTransactions\<close> emits nothing: the
  \<open>continue\<close> that discards the native leg leaves the whole round, token loop
  included.
\<close>

theorem self_transfer_suppresses_token_legs:
  "\<bar>nativeDiff exBothMeta 0\<bar> > MIN_SOL_CHANGE
   \<and> tokenEvents ''Me'' exBoth = [exBothTokenEvent]
   \<and> formatTransactions ''Me'' [exBoth] = []"
  by (simp add: exBoth_events exBoth_tokens) (simp add: ex_defs js_defs nativeDiff_def)

text \<open>Witness for C6, at a change of exactly 5000 lamports.\<close>

theorem dust_filtered_witness:
  "meta exDust = Some exDustMeta
   \<and> transaction exDust = Some exDustBody
   \<and> indexOf (accountKeys exDustBody) ''Me'' = Some 0
   \<and> \<bar>nativeDiff exDustMeta 0\<bar> = 5000
   \<and> nativeEvents ''Me'' exDust = []
   \<and> formatTransactions ''Me'' [exDust] = tokenEvents ''Me'' exDust
   \<and> tokenEvents ''Me'' exDust = [exDustEvent]"
proof -
  have h1: "meta exDust = Some exDustMeta" by (simp add: exDust_def)
  have h2: "transaction exDust = Some exDustBody" by (simp add: exDust_def)
  have h3: "indexOf (accountKeys exDustBody) ''Me'' = Some 0" by (simp add: ex_defs)
  have h4: "\<bar>nativeDiff exDustMeta 0\<bar> = 5000" by (simp add: ex_defs js_defs nativeDiff_def)
  then have h4': "\<bar>nativeDiff exDustMeta 0\<bar> \<le> 5000" by simp
  from dust_filtered[OF h1 h2 h3 h4'] h1 h2 h3 h4 exDust_events show ?thesis by simp
qed

text \<open>Witness for C9, at the failed send, alone and between two other transactions.\<close>

theorem skipped_transactions_witness:
  "(\<exists>m. meta exFailed = Some m \<and> err m \<noteq> None)
   \<and> formatTransactions ''Me'' [exFailed] = []
   \<and> formatTransactions ''Me'' ([exSend] @ exFailed # [exDust])
     = formatTransactions ''Me'' ([exSend] @ [exDust])"
proof -
  have h: "\<exists>m. meta exFailed = Some m \<and> err m \<noteq> None" by (simp add: exFailed_def)
  then have "meta exFailed = None \<or> transaction exFailed = None
             \<or> (\<exists>m. meta exFailed = Some m \<and> err m \<noteq> None)" by simp
  from skipped_transactions[OF this, of "''Me''" "[exSend]" "[exDust]"] h show ?thesis by simp
qed

text \<open>Witness for C10, at the send followed by the token receipt.\<close>

theorem output_order_witness:
  "formatTransactions ''Me'' [exSend, exDust] = [exSendEvent, exDustEvent]
   \<and> nativeEvents ''Me'' exDust @ tokenEvents ''Me'' exDust = [exDustEvent]
   \<and> meta exDust = Some exDustMeta \<and> transaction exDust = Some exDustBody
   \<and> err exDustMeta = None
   \<and> tokenEvents ''Me'' exDust =
       List.map_filter
         (tokenTransfer ''Me'' exDustMeta exDustBody (txSignature exDustBody) (txTime exDust)
            (nullish_list (preTokenBalances exDustMeta))
            (nullish_list (postTokenBalances exDustMeta)))
         (nullish_list (postTokenBalances exDustMeta))"
proof -
  have h: "meta exDust = Some exDustMeta \<and> transaction exDust = Some exDustBody
           \<and> err exDustMeta = None"
    by (simp add: exDust_def exDustMeta_def)
  have nd: "\<not> nativeLegDiscarded ''Me'' exDust"
    by (simp add: ex_defs js_defs resolver_defs formatter_defs)
  from output_order[of "''Me''" "[exSend, exDust]" exDust exDustMeta exDustBody] h nd
    exSend_events exDust_events
  show ?thesis by simp
qed

lemmas screen_defs =
  fetchTransactions_def loadMore_def exState_def exHistory_def exFailing_def
  exSendEvent_def exDustEvent_def exMintEvent_def Let_def

text \<open>
  C4. A failed fetch should leave the event list and the cursor as they were, so that a
  retry with \<open>reset = false\<close> neither repeats nor drops events. Here a reset fetch
  fails: the event list is kept but the cursor, cleared before the fetch, stays cleared,
  and the retry fetches the newest page again and appends it to the list that already
  holds it.
\<close>

theorem failed_reset_loses_cursor:
  "lastSignature exState = Some ''sigDust''
   \<and> transactions (fetchTransactions exFailing True exState) = [exSendEvent, exDustEvent]
   \<and> lastSignature (fetchTransactions exFailing True exState) = None
   \<and> transactions (fetchTransactions exHistory False (fetchTransactions exFailing True exState))
     = [exSendEvent, exDustEvent, exSendEvent, exDustEvent]"
  by (simp add: fetchTransactions_def exState_def exHistory_def exFailing_def Let_def)

text \<open>
  Witness for C5, at the example screen: the page before \<open>sigDust\<close> is not empty
  and keeps \<open>hasMore\<close>, the page after it is empty and clears it, and
  \<open>loadMore\<close> then changes nothing.
\<close>

theorem hasMore_cleared_on_empty_page_witness:
  "exHistory (if False then None else lastSignature exState) = Some [exMintEvent]
   \<and> hasMore (fetchTransactions exHistory False exState)
   \<and> exHistory (if False then None
                else lastSignature (fetchTransactions exHistory False exState)) = Some []
   \<and> \<not> hasMore (fetchTransactions exHistory False (fetchTransactions exHistory False exState))
   \<and> loadMore exHistory
        (fetchTransactions exHistory False (fetchTransactions exHistory False exState))
      = fetchTransactions exHistory False (fetchTransactions exHistory False exState)"
proof -
  let ?s1 = "fetchTransactions exHistory False exState"
  let ?s2 = "fetchTransactions exHistory False ?s1"
  have p1: "exHistory (if False then None else lastSignature exState) = Some [exMintEvent]"
    by (simp add: exState_def exHistory_def)
  have more: "hasMore exState" by (simp add: exState_def)
  have p2: "exHistory (if False then None else lastSignature ?s1) = Some []"
    using p1 by (simp add: fetchTransactions_def Let_def exHistory_def exMintEvent_def)
  from hasMore_cleared_on_empty_page[of exHistory False exState "[exMintEvent]" "[]"]
    p1 more
  have a: "hasMore ?s1" by simp
  from hasMore_cleared_on_empty_page[of exHistory False ?s1 "[]" "[]"] p2
  have b: "\<not> hasMore ?s2" by simp
  from hasMore_cleared_on_empty_page[of exHistory False ?s2 "[]" "[]"] b
  have c: "loadMore exHistory ?s2 = ?s2" by simp
  from p1 a p2 b c show ?thesis by simp
qed

lemma exTitles:
  "sectionTitle exCal exToday exYesterday exToday exSendEvent = ''Today''"
  "sectionTitle exCal exToday exYesterday exToday exDustEvent = ''Yesterday''"
  "sectionTitle exCal exToday exYesterday exToday exMintEvent = ''February 28, 2024''"
  by (simp_all add: sectionTitle_def eventDate_def isSameDay_def exCal_def exToday_def
      exYesterday_def exSendEvent_def exDustEvent_def exMintEvent_def Let_def)

lemma exOrdinary:
  "ordinaryKey ''March 1, 2024''" "ordinaryKey ''February 29, 2024''"
    "ordinaryKey ''February 28, 2024''"
    by (simp_all add: ordinaryKey_def isArrayIndex_def objectPrototypeKeys_def)


lemma exHyp:
  "\<forall>tr\<in>set [exSendEvent, exDustEvent, exSendEvent, exMintEvent].
     ordinaryKey (toLocaleDateString (exCal (eventDate exToday tr)))"
  using exOrdinary by (simp add: exCal_def)

lemma exFirstSeen:
  "firstSeen (map (sectionTitle exCal exToday exYesterday exToday)
     [exSendEvent, exDustEvent, exSendEvent, exMintEvent])
   = [''Today'', ''Yesterday'', ''February 28, 2024'']"
  by (simp add: exTitles)

lemma exFilters:
  "map (\<lambda>k. filter (\<lambda>tr. sectionTitle exCal exToday exYesterday exToday tr = k)
          [exSendEvent, exDustEvent, exSendEvent, exMintEvent])
     [''Today'', ''Yesterday'', ''February 28, 2024'']
   = [[exSendEvent, exSendEvent], [exDustEvent], [exMintEvent]]"
  by (simp add: exTitles)


text \<open>
  Witness for C8, at four events labelled Today, Yesterday, Today and February 28: three
  sections in that first-seen order, the two events of today together.
\<close>

theorem grouping_preserves_order_witness:
  "ordinaryKey ''March 1, 2024'' \<and> ordinaryKey ''February 29, 2024''
   \<and> ordinaryKey ''February 28, 2024''
   \<and> (\<exists>sections.
         groupTransactionsByDate exCal exToday exYesterday exToday
           [exSendEvent, exDustEvent, exSendEvent, exMintEvent] = Some sections
         \<and> map title sections = [''Today'', ''Yesterday'', ''February 28, 2024'']
         \<and> map data sections = [[exSendEvent, exSendEvent], [exDustEvent], [exMintEvent]])"
proof -
  let ?txs = "[exSendEvent, exDustEvent, exSendEvent, exMintEvent]"
  let ?f = "sectionTitle exCal exToday exYesterday exToday"
  from grouping_preserves_order[OF exHyp, of exToday exYesterday]
  obtain sections where s1:
    "groupTransactionsByDate exCal exToday exYesterday exToday ?txs = Some sections"
    and s2: "map title sections = firstSeen (map ?f ?txs)"
    and s3: "\<forall>s\<in>set sections. data s = filter (\<lambda>tr. ?f tr = title s) ?txs"
    by (elim exE conjE)
  from s2 have t: "map title sections = [''Today'', ''Yesterday'', ''February 28, 2024'']"
    by (simp only: exFirstSeen)
  from s3 have "map data sections = map (\<lambda>s. filter (\<lambda>tr. ?f tr = title s) ?txs) sections"
    by (simp only: map_eq_conv)
  also have "\<dots> = map (\<lambda>k. filter (\<lambda>tr. ?f tr = k) ?txs) (map title sections)"
    by (simp only: map_map comp_def)
  also have "\<dots> = [[exSendEvent, exSendEvent], [exDustEvent], [exMintEvent]]"
    by (simp only: t exFilters)
  finally have d: "map data sections = [[exSendEvent, exSendEvent], [exDustEvent], [exMintEvent]]" .
  from s1 t d have "\<exists>sections.
         groupTransactionsByDate exCal exToday exYesterday exToday ?txs = Some sections
         \<and> map title sections = [''Today'', ''Yesterday'', ''February 28, 2024'']
         \<and> map data sections = [[exSendEvent, exSendEvent], [exDustEvent], [exMintEvent]]"
    by (intro exI conjI)
  with exOrdinary show ?thesis by (intro conjI)
qed

end
